theory Spec2Isabelle
  imports Main "HOL-Library.AList"
begin

section \<open>The ghttp client request pipeline (net/ghttp/ghttp\_client\_request.go)\<close>

text \<open>
  A shallow embedding of \<^verbatim>\<open>DoRequest\<close>, \<^verbatim>\<open>prepareRequest\<close> and \<^verbatim>\<open>callRequest\<close>.
  Strings are byte lists. Go's \<^verbatim>\<open>error\<close> values, panics and the \<^verbatim>\<open>(resp, err)\<close> result
  pairs are explicit values. Everything the file calls but does not define (the transport,
  the filesystem, the marshalers, the multipart writer, \<^verbatim>\<open>http.NewRequest\<close>, the clock) is a
  field of the environment record \<open>Env\<close>, so every theorem holds for every behaviour of
  these collaborators.
\<close>

subsection \<open>Errors, panics and argument values\<close>

text \<open>
  \<open>ErrorsNew m\<close> is the value of \<^verbatim>\<open>errors.New(m)\<close>; \<open>External m\<close> is an error value
  handed back by a collaborator.
\<close>

datatype error = ErrorsNew string | External string

text \<open>\<open>IndexOutOfRange i n\<close>: index \<open>i\<close> read in a slice of length \<open>n\<close>.\<close>

datatype panic = IndexOutOfRange nat nat | NilPointerDereference

text \<open>
  The dynamic type of \<^verbatim>\<open>data[0]\<close> (an \<^verbatim>\<open>interface{}\<close>): the type switch of
  \<^verbatim>\<open>prepareRequest\<close> tells \<^verbatim>\<open>string\<close> and \<^verbatim>\<open>[]byte\<close> from everything else.
\<close>

datatype 'v gvalue = GString string | GBytes string | GOther 'v

datatype 'a outcome = Panicked panic | Failed error | Done 'a

subsection \<open>time.Time\<close>

text \<open>
  A \<^verbatim>\<open>time.Time\<close> is its count of seconds since January 1 of year 1 (UTC) and its
  nanoseconds within the second. \<^verbatim>\<open>UnixNano\<close> is computed in \<^verbatim>\<open>int64\<close>:
  \<^verbatim>\<open>(t.unixSec())*1e9 + int64(t.nsec())\<close>, which wraps around.
\<close>

record Time =
  sec :: int
  nsec :: int

definition unixToInternal :: int where
  "unixToInternal = (1969 * 365 + 1969 div 4 - 1969 div 100 + 1969 div 400) * 86400"

definition int64 :: "int \<Rightarrow> int" where
  "int64 x = (x + 2 ^ 63) mod 2 ^ 64 - 2 ^ 63"

definition IsZero :: "Time \<Rightarrow> bool" where
  "IsZero t \<longleftrightarrow> sec t = 0 \<and> nsec t = 0"

definition UnixNano :: "Time \<Rightarrow> int" where
  "UnixNano t = int64 ((sec t - unixToInternal) * 1000000000 + nsec t)"

text \<open>The chronological order of two instants (what \<^verbatim>\<open>Time.Before\<close> decides).\<close>

definition Before :: "Time \<Rightarrow> Time \<Rightarrow> bool" where
  "Before t u \<longleftrightarrow> sec t < sec u \<or> (sec t = sec u \<and> nsec t < nsec u)"

text \<open>The instants whose Unix time in nanoseconds fits \<^verbatim>\<open>int64\<close> (years 1678 to 2262).\<close>

definition fitsInt64 :: "Time \<Rightarrow> bool" where
  "fitsInt64 t \<longleftrightarrow> 0 \<le> nsec t \<and> nsec t < 1000000000 \<and>
     - (2 ^ 63) \<le> (sec t - unixToInternal) * 1000000000 + nsec t \<and>
     (sec t - unixToInternal) * 1000000000 + nsec t < 2 ^ 63"

subsection \<open>Requests, responses, the client\<close>

record Cookie =
  Name :: string
  Value :: string
  Expires :: Time

text \<open>A part written by the \<^verbatim>\<open>multipart.Writer\<close>: a form file (field name, file name,
  content) or a plain field (name, value).\<close>

datatype part = FormFile string string string | FormField string string

text \<open>
  The bytes of a request body: the parameter string itself, or the multipart encoding of
  the parts written. \<open>MultipartRest n ps\<close> is that encoding without its first \<open>n\<close> bytes, what
  a reader over it still holds after \<open>n\<close> bytes were read.
\<close>

datatype body = RawBody string | MultipartBody "part list" | MultipartRest nat "part list"

typedecl ctxval

datatype Context = Background | ClientCtx ctxval

text \<open>
  \<^verbatim>\<open>http.Header\<close> as the file uses it (\<^verbatim>\<open>Set\<close> and \<^verbatim>\<open>Get\<close> only): one value for each
  canonical key.
\<close>

record Request =
  Method :: string
  URL :: string
  Body :: body
  Header :: "string \<rightharpoonup> string"
  Host :: string
  Ctx :: Context

text \<open>An \<^verbatim>\<open>http.Response\<close>: \<open>Cookies\<close> is what its method \<^verbatim>\<open>Cookies()\<close> returns.\<close>

record Response =
  StatusCode :: int
  Cookies :: "Cookie list"

record ClientResponse =
  Response :: "Response option"
  request :: Request
  requestBody :: body

typedecl ClientHandlerFunc

text \<open>
  The Go maps \<^verbatim>\<open>header\<close> and \<^verbatim>\<open>cookies\<close> are association lists; the order of the list
  stands for the order in which \<^verbatim>\<open>range\<close> visits the map, which Go leaves open.
\<close>

record Client =
  header :: "(string \<times> string) list"
  cookies :: "(string \<times> string) list"
  prefix :: string
  authUser :: string
  authPass :: string
  agent :: string
  ctx :: "ctxval option"
  retryCount :: int
  retryInterval :: int
  browserMode :: bool
  middlewareHandler :: "ClientHandlerFunc list"

subsection \<open>Effects on the outside world\<close>

text \<open>
  The trace records, in order, every request handed to the transport, every
  \<^verbatim>\<open>time.Sleep\<close> and every \<^verbatim>\<open>resp.Response.Body.Close()\<close>.
\<close>

datatype event = Sent Request | Slept int | BodyClosed

text \<open>
  The result of \<^verbatim>\<open>c.Do(req)\<close>: a response and no error, or an error with or without a
  response.
\<close>

datatype DoResult = DoOk Response | DoErr "Response option" error

datatype result = Panics panic | Returns "ClientResponse option" "error option"

text \<open>
  The collaborators. \<open>Do env i req\<close> is the transport's answer to the send that follows
  \<open>i\<close> earlier sends, for the request built as \<open>req\<close>, and \<open>bodyRead env i req\<close> is the number
  of bytes that send reads from the request's body. \<open>MiddlewareNext\<close> is the chain dispatch
  of \<^verbatim>\<open>ghttp_client_middleware.go\<close>.
\<close>

record 'v Env =
  Do :: "nat \<Rightarrow> Request \<Rightarrow> DoResult"
  bodyRead :: "nat \<Rightarrow> Request \<Rightarrow> nat"
  MiddlewareNext :: "Client \<Rightarrow> event list \<Rightarrow> Request \<Rightarrow>
    (ClientResponse option \<times> error option) \<times> Client \<times> event list"
  timeNow :: Time
  BuildParams :: "'v gvalue \<Rightarrow> string"
  jsonMarshal :: "'v \<Rightarrow> error + string"
  VarToXml :: "'v \<Rightarrow> error + string"
  jsonValid :: "string \<Rightarrow> bool"
  gstrTrim :: "string \<Rightarrow> string"
  fileExists :: "string \<Rightarrow> bool"
  fileBasename :: "string \<Rightarrow> string"
  osOpen :: "string \<Rightarrow> error option"
  ioCopy :: "string \<Rightarrow> error + string"
  createFormFile :: "string \<Rightarrow> string \<Rightarrow> error option"
  writeField :: "string \<Rightarrow> string \<Rightarrow> error option"
  writerClose :: "error option"
  formDataContentType :: string
  newRequestError :: "string \<Rightarrow> string \<Rightarrow> error option"
  urlHost :: "string \<Rightarrow> string"
  basicAuth :: "string \<Rightarrow> string \<Rightarrow> string"

subsection \<open>callRequest\<close>

definition sendCount :: "event list \<Rightarrow> nat" where
  "sendCount tr = length (filter (\<lambda>e. case e of Sent _ \<Rightarrow> True | _ \<Rightarrow> False) tr)"

definition doError :: "DoResult \<Rightarrow> error option" where
  "doError r = (case r of DoOk _ \<Rightarrow> None | DoErr _ e \<Rightarrow> Some e)"

text \<open>
  Line 315 gives the request a reader over the body's bytes that is not rewound
  (\<^verbatim>\<open>utils.NewReadCloser(reqBodyContent, false)\<close>): after \<open>n\<close> bytes were read, an attempt
  finds what is left.
\<close>

definition bodyFrom :: "nat \<Rightarrow> body \<Rightarrow> body" where
  "bodyFrom n b =
     (case b of
        RawBody s \<Rightarrow> RawBody (drop n s)
      | MultipartBody ps \<Rightarrow> (if n = 0 then MultipartBody ps else MultipartRest n ps)
      | MultipartRest m ps \<Rightarrow> MultipartRest (m + n) ps)"

text \<open>
  The \<^verbatim>\<open>for\<close> loop of \<^verbatim>\<open>callRequest\<close>; \<open>off\<close> counts the bytes of the body read by the
  attempts so far. Every attempt hands over the same request, with what its reader still
  holds as the body.
\<close>

function callLoop :: "'v Env \<Rightarrow> Client \<Rightarrow> event list \<Rightarrow> Request \<Rightarrow> nat \<Rightarrow> ClientResponse \<Rightarrow>
    (ClientResponse \<times> error option) \<times> Client \<times> event list" where
  "callLoop env c tr req off resp =
     (case Do env (sendCount tr) req of
        DoOk r \<Rightarrow>
          ((resp\<lparr>Response := Some r\<rparr>, None), c,
           tr @ [Sent (req\<lparr>Body := bodyFrom off (Body req)\<rparr>)])
      | DoErr ro e \<Rightarrow>
          (let tr1 = tr @ [Sent (req\<lparr>Body := bodyFrom off (Body req)\<rparr>)] @
                       (case ro of None \<Rightarrow> [] | Some _ \<Rightarrow> [BodyClosed]) in
           if retryCount c > 0
           then callLoop env (c\<lparr>retryCount := retryCount c - 1\<rparr>)
                  (tr1 @ [Slept (retryInterval c)]) req
                  (off + bodyRead env (sendCount tr) req) (resp\<lparr>Response := ro\<rparr>)
           else ((resp\<lparr>Response := ro\<rparr>, Some e), c, tr1)))"
  by pat_completeness auto
termination
  by (relation "measure (\<lambda>(env, c, tr, req, off, resp). nat (retryCount c))") auto

definition callRequest :: "'v Env \<Rightarrow> Client \<Rightarrow> event list \<Rightarrow> Request \<Rightarrow>
    (ClientResponse \<times> error option) \<times> Client \<times> event list" where
  "callRequest env c tr req =
     callLoop env c tr req 0 \<lparr>Response = None, request = req, requestBody = Body req\<rparr>"

text \<open>A send event with the request's body put back to \<open>b\<close>; any other event as it is.\<close>

definition restoreBody :: "body \<Rightarrow> event \<Rightarrow> event" where
  "restoreBody b e = (case e of Sent r \<Rightarrow> Sent (r\<lparr>Body := b\<rparr>) | _ \<Rightarrow> e)"

definition sleepCount :: "event list \<Rightarrow> nat" where
  "sleepCount tr = length (filter (\<lambda>e. case e of Slept _ \<Rightarrow> True | _ \<Rightarrow> False) tr)"

subsection \<open>String helpers of the Go library\<close>

definition lowerLetters :: string where
  "lowerLetters = ''abcdefghijklmnopqrstuvwxyz''"

definition upperLetters :: string where
  "upperLetters = ''ABCDEFGHIJKLMNOPQRSTUVWXYZ''"

definition digits :: string where
  "digits = ''0123456789''"

text \<open>
  \<^verbatim>\<open>strings.ToUpper\<close> on bytes: ASCII letters are mapped, every other byte is kept. (No
  character outside ASCII has \<^verbatim>\<open>G\<close>, \<^verbatim>\<open>E\<close> or \<^verbatim>\<open>T\<close> as its upper case, so the test
  \<^verbatim>\<open>method == "GET"\<close> is decided as in Go.)
\<close>

definition toUpperByte :: "char \<Rightarrow> char" where
  "toUpperByte c = (case map_of (zip lowerLetters upperLetters) c of Some u \<Rightarrow> u | None \<Rightarrow> c)"

definition toLowerByte :: "char \<Rightarrow> char" where
  "toLowerByte c = (case map_of (zip upperLetters lowerLetters) c of Some l \<Rightarrow> l | None \<Rightarrow> c)"

definition stringsToUpper :: "string \<Rightarrow> string" where
  "stringsToUpper s = map toUpperByte s"

text \<open>\<^verbatim>\<open>strings.Contains(s, sub)\<close>.\<close>

fun stringsContains :: "string \<Rightarrow> string \<Rightarrow> bool" where
  "stringsContains [] sub = (sub = [])"
| "stringsContains (x # xs) sub =
     (take (length sub) (x # xs) = sub \<or> stringsContains xs sub)"

text \<open>\<^verbatim>\<open>strings.Split(s, sep)\<close> for a separator of one byte: never the empty list.\<close>

fun stringsSplit :: "char \<Rightarrow> string \<Rightarrow> string list" where
  "stringsSplit sep [] = [[]]"
| "stringsSplit sep (x # xs) =
     (if x = sep then [] # stringsSplit sep xs
      else (case stringsSplit sep xs of
              y # ys \<Rightarrow> (x # y) # ys
            | [] \<Rightarrow> [[x]]))"

text \<open>
  \<^verbatim>\<open>gregex.IsMatchString(`^[\w\[\]]+=.+`, s)\<close>, the match of Go's \<^verbatim>\<open>regexp\<close> for the
  pattern written in \<^verbatim>\<open>prepareRequest\<close>: the longest prefix of bytes of the class
  \<^verbatim>\<open>[\w\[\]]\<close> is not empty, the byte after it is \<^verbatim>\<open>=\<close>, and one more character follows
  that \<^verbatim>\<open>.\<close> matches, that is, any byte but a line feed.
\<close>

definition wordOrBracket :: "char \<Rightarrow> bool" where
  "wordOrBracket c \<longleftrightarrow> c \<in> set (digits @ upperLetters @ lowerLetters @ ''_[]'')"

definition isMatchFormPattern :: "string \<Rightarrow> bool" where
  "isMatchFormPattern s =
     (takeWhile wordOrBracket s \<noteq> [] \<and>
      (case dropWhile wordOrBracket s of
         e # x # _ \<Rightarrow> e = CHR ''='' \<and> x \<noteq> CHR 0x0A
       | _ \<Rightarrow> False))"

text \<open>
  The shape of a form body in the specification's words: one or more word or bracket
  characters, then \<^verbatim>\<open>=\<close>, then a remainder that is not empty.
\<close>

definition specFormShape :: "string \<Rightarrow> bool" where
  "specFormShape s =
     (takeWhile wordOrBracket s \<noteq> [] \<and>
      (case dropWhile wordOrBracket s of
         e # rest \<Rightarrow> e = CHR ''='' \<and> rest \<noteq> []
       | [] \<Rightarrow> False))"

subsection \<open>http.Header and http.NewRequest\<close>

text \<open>
  \<^verbatim>\<open>textproto.CanonicalMIMEHeaderKey\<close>: a key made of token bytes only gets an upper-case
  first letter and an upper-case letter after each hyphen, the other letters in lower
  case; any other key is kept as it is.
\<close>

definition validHeaderFieldByte :: "char \<Rightarrow> bool" where
  "validHeaderFieldByte c \<longleftrightarrow>
     c \<in> set (digits @ upperLetters @ lowerLetters @ ''!#$%&*+-.^_`|~'' @ [CHR 0x27])"

fun canonicalCase :: "bool \<Rightarrow> string \<Rightarrow> string" where
  "canonicalCase upper [] = []"
| "canonicalCase upper (c # cs) =
     (let c' = (if upper then toUpperByte c else toLowerByte c)
      in c' # canonicalCase (c' = CHR ''-'') cs)"

definition CanonicalMIMEHeaderKey :: "string \<Rightarrow> string" where
  "CanonicalMIMEHeaderKey s =
     (if list_all validHeaderFieldByte s then canonicalCase True s else s)"

definition headerSet :: "(string \<rightharpoonup> string) \<Rightarrow> string \<Rightarrow> string \<Rightarrow> (string \<rightharpoonup> string)" where
  "headerSet h k v = h(CanonicalMIMEHeaderKey k \<mapsto> v)"

definition headerGet :: "(string \<rightharpoonup> string) \<Rightarrow> string \<Rightarrow> string" where
  "headerGet h k = (case h (CanonicalMIMEHeaderKey k) of Some v \<Rightarrow> v | None \<Rightarrow> [])"

text \<open>
  \<^verbatim>\<open>http.NewRequest(method, url, body)\<close>: an error for a method or URL it refuses,
  else a request with an empty header; an empty method means \<^verbatim>\<open>GET\<close>.
\<close>

definition NewRequest :: "'v Env \<Rightarrow> string \<Rightarrow> string \<Rightarrow> body \<Rightarrow> error + Request" where
  "NewRequest env m u b =
     (case newRequestError env m u of
        Some e \<Rightarrow> Inl e
      | None \<Rightarrow> Inr \<lparr>Method = (if m = [] then ''GET'' else m), URL = u, Body = b,
                    Header = Map.empty, Host = urlHost env u, Ctx = Background\<rparr>)"

subsection \<open>prepareRequest\<close>

text \<open>
  Lines 155 to 183: the parameter string.

  Modelled from the spec: \<^verbatim>\<open>gconv.String\<close> is not in this file; of a string or a byte
  slice it is that very sequence of bytes ("pass the value through unmodified").
\<close>

definition encodeParam :: "'v Env \<Rightarrow> Client \<Rightarrow> 'v gvalue list \<Rightarrow> error + string" where
  "encodeParam env c data =
     (case data of
        [] \<Rightarrow> Inr []
      | d # _ \<Rightarrow>
          (let ct = (case map_of (header c) ''Content-Type'' of Some v \<Rightarrow> v | None \<Rightarrow> [])
           in if ct = ''application/json'' then
                (case d of
                   GString s \<Rightarrow> Inr s
                 | GBytes s \<Rightarrow> Inr s
                 | GOther v \<Rightarrow> jsonMarshal env v)
              else if ct = ''application/xml'' then
                (case d of
                   GString s \<Rightarrow> Inr s
                 | GBytes s \<Rightarrow> Inr s
                 | GOther v \<Rightarrow> VarToXml env v)
              else Inr (BuildParams env d)))"

text \<open>Lines 202 to 229: one item of the multipart loop.\<close>

definition doesNotExist :: "string \<Rightarrow> error" where
  "doesNotExist path = ErrorsNew ([CHR 0x22] @ path @ [CHR 0x22] @ '' does not exist'')"

definition writeItem :: "'v Env \<Rightarrow> string \<Rightarrow> part outcome" where
  "writeItem env item =
     (let array = stringsSplit (CHR ''='') item in
      if length array \<le> 1 then Panicked (IndexOutOfRange 1 (length array))
      else if length (array ! 1) > 6 \<and> take 6 (array ! 1) = ''@file:'' then
        (let path = drop 6 (array ! 1) in
         if \<not> fileExists env path then Failed (doesNotExist path)
         else
           (case createFormFile env (array ! 0) (fileBasename env path) of
              Some e \<Rightarrow> Failed e
            | None \<Rightarrow>
                (case osOpen env path of
                   Some e \<Rightarrow> Failed e
                 | None \<Rightarrow>
                     (case ioCopy env path of
                        Inl e \<Rightarrow> Failed e
                      | Inr content \<Rightarrow>
                          Done (FormFile (array ! 0) (fileBasename env path) content)))))
      else
        (case writeField env (array ! 0) (array ! 1) of
           Some e \<Rightarrow> Failed e
         | None \<Rightarrow> Done (FormField (array ! 0) (array ! 1))))"

text \<open>Lines 201 to 230: the loop; the parts written so far are the accumulator.\<close>

fun writeItems :: "'v Env \<Rightarrow> part list \<Rightarrow> string list \<Rightarrow> part list outcome" where
  "writeItems env acc [] = Done acc"
| "writeItems env acc (item # items) =
     (case writeItem env item of
        Panicked p \<Rightarrow> Panicked p
      | Failed e \<Rightarrow> Failed e
      | Done pt \<Rightarrow> writeItems env (acc @ [pt]) items)"

text \<open>Lines 248 to 259: the content type of a request that is not a file upload.\<close>

definition sniffContentType :: "'v Env \<Rightarrow> string \<Rightarrow> string option" where
  "sniffContentType env param =
     (if length param > 0 then
        (if (hd param = CHR ''['' \<or> hd param = CHR ''{'') \<and> jsonValid env param
         then Some ''application/json''
         else if isMatchFormPattern param then Some ''application/x-www-form-urlencoded''
         else None)
      else None)"

definition setContentType :: "'v Env \<Rightarrow> Client \<Rightarrow> string \<Rightarrow> Request \<Rightarrow> Request" where
  "setContentType env c param req =
     (case map_of (header c) ''Content-Type'' of
        Some v \<Rightarrow> req\<lparr>Header := headerSet (Header req) ''Content-Type'' v\<rparr>
      | None \<Rightarrow>
          (case sniffContentType env param of
             Some t \<Rightarrow> req\<lparr>Header := headerSet (Header req) ''Content-Type'' t\<rparr>
           | None \<Rightarrow> req))"

text \<open>Lines 184 to 262: the request for the method, the URL and the parameter string.\<close>

definition buildRequest :: "'v Env \<Rightarrow> Client \<Rightarrow> string \<Rightarrow> string \<Rightarrow> string \<Rightarrow> Request outcome" where
  "buildRequest env c method url param =
     (if method = ''GET'' then
        (case NewRequest env method
                (if param \<noteq> [] then
                   (if stringsContains url ''?'' then url @ ''&'' @ param
                    else url @ ''?'' @ param)
                 else url)
                (RawBody []) of
           Inl e \<Rightarrow> Failed e
         | Inr req \<Rightarrow> Done req)
      else if stringsContains param ''@file:'' then
        (case writeItems env [] (stringsSplit (CHR ''&'') param) of
           Panicked p \<Rightarrow> Panicked p
         | Failed e \<Rightarrow> Failed e
         | Done parts \<Rightarrow>
             (case writerClose env of
                Some e \<Rightarrow> Failed e
              | None \<Rightarrow>
                  (case NewRequest env method url (MultipartBody parts) of
                     Inl e \<Rightarrow> Failed e
                   | Inr req \<Rightarrow>
                       Done (req\<lparr>Header := headerSet (Header req) ''Content-Type''
                                             (formDataContentType env)\<rparr>))))
      else
        (case NewRequest env method url (RawBody param) of
           Inl e \<Rightarrow> Failed e
         | Inr req \<Rightarrow> Done (setContentType env c param req)))"

text \<open>Lines 264 to 302: the client's context, headers, host, cookies, credentials and agent.\<close>

definition cookieHeader :: "(string \<times> string) list \<Rightarrow> string" where
  "cookieHeader cs =
     foldl (\<lambda>acc (k, v). (if length acc > 0 then acc @ '';'' else acc) @ k @ ''='' @ v) [] cs"

definition finishRequest :: "'v Env \<Rightarrow> Client \<Rightarrow> Request \<Rightarrow> Request" where
  "finishRequest env c req0 =
     (let req1 = req0\<lparr>Ctx := (case ctx c of Some x \<Rightarrow> ClientCtx x | None \<Rightarrow> Background)\<rparr>;
          req2 = req1\<lparr>Header := foldl (\<lambda>h (k, v). headerSet h k v) (Header req1) (header c)\<rparr>;
          host = headerGet (Header req2) ''Host'';
          req3 = (if host \<noteq> [] \<and> Host req2 = [] then req2\<lparr>Host := host\<rparr> else req2);
          req4 = (if length (cookies c) > 0 \<and> length (cookieHeader (cookies c)) > 0
                  then req3\<lparr>Header := headerSet (Header req3) ''Cookie'' (cookieHeader (cookies c))\<rparr>
                  else req3);
          req5 = (if length (authUser c) > 0
                  then req4\<lparr>Header := headerSet (Header req4) ''Authorization''
                                (''Basic '' @ basicAuth env (authUser c) (authPass c))\<rparr>
                  else req4)
      in if agent c \<noteq> [] then req5\<lparr>Header := headerSet (Header req5) ''User-Agent'' (agent c)\<rparr>
         else req5)"

text \<open>
  The value the custom-header loop of \<^verbatim>\<open>prepareRequest\<close> leaves under the canonical key
  \<^verbatim>\<open>Content-Type\<close>: that of the last client header whose key canonicalizes to it.
\<close>

definition explicitContentType :: "Client \<Rightarrow> string option" where
  "explicitContentType c =
     (let kvs = filter (\<lambda>kv. CanonicalMIMEHeaderKey (fst kv) = ''Content-Type'') (header c)
      in if kvs = [] then None else Some (snd (last kvs)))"

definition prepareRequest :: "'v Env \<Rightarrow> Client \<Rightarrow> string \<Rightarrow> string \<Rightarrow> 'v gvalue list \<Rightarrow> Request outcome" where
  "prepareRequest env c method0 url0 data =
     (let method = stringsToUpper method0;
          url = (if length (prefix c) > 0 then prefix c @ gstrTrim env url0 else url0)
      in case encodeParam env c data of
           Inl e \<Rightarrow> Failed e
         | Inr param \<Rightarrow>
             (case buildRequest env c method url param of
                Panicked p \<Rightarrow> Panicked p
              | Failed e \<Rightarrow> Failed e
              | Done req \<Rightarrow> Done (finishRequest env c req)))"

subsection \<open>DoRequest\<close>

text \<open>Lines 139 to 143: one cookie of the response against the client's store.\<close>

definition reconcileCookie :: "Time \<Rightarrow> (string \<times> string) list \<Rightarrow> Cookie \<Rightarrow> (string \<times> string) list" where
  "reconcileCookie now store v =
     (if \<not> IsZero (Expires v) \<and> UnixNano (Expires v) < UnixNano now
      then AList.delete (Name v) store
      else AList.update (Name v) (Value v) store)"

definition syncCookies :: "Time \<Rightarrow> Cookie list \<Rightarrow> (string \<times> string) list \<Rightarrow> (string \<times> string) list" where
  "syncCookies now cs store = foldl (reconcileCookie now) store cs"

text \<open>
  \<^verbatim>\<open>DoRequest\<close>. The tracing span is left out: it only replaces the request's context
  by one derived from it. The client and the trace are passed in and returned.
\<close>

definition DoRequest :: "'v Env \<Rightarrow> Client \<Rightarrow> event list \<Rightarrow> string \<Rightarrow> string \<Rightarrow> 'v gvalue list \<Rightarrow>
    result \<times> Client \<times> event list" where
  "DoRequest env c tr method url data =
     (case prepareRequest env c method url data of
        Panicked p \<Rightarrow> (Panics p, c, tr)
      | Failed e \<Rightarrow> (Returns None (Some e), c, tr)
      | Done req \<Rightarrow>
          (case (if length (middlewareHandler c) > 0 then MiddlewareNext env c tr req
                 else (case callRequest env c tr req of
                         ((r, e), c', tr') \<Rightarrow> ((Some r, e), c', tr'))) of
             ((resp, err), c1, tr1) \<Rightarrow>
               (case resp of
                  None \<Rightarrow> (Returns resp err, c1, tr1)
                | Some r \<Rightarrow>
                    if browserMode c1 then
                      (case Response r of
                         None \<Rightarrow> (Panics NilPointerDereference, c1, tr1)
                       | Some hr \<Rightarrow>
                           (Returns resp err,
                            c1\<lparr>cookies := syncCookies (timeNow env) (Cookies hr) (cookies c1)\<rparr>,
                            tr1))
                    else (Returns resp err, c1, tr1))))"

subsection \<open>Concrete instances\<close>

text \<open>
  A client without configuration, and collaborators for the examples: a transport that
  refuses every connection before it reads anything of the body (its error counts the
  earlier sends), a filesystem that holds
  only \<^verbatim>\<open>/tmp/a.txt\<close>, marshalers that accept \<open>True\<close> and refuse \<open>False\<close>, the clock at
  2026-10-30 00:00:00 UTC.
\<close>

text \<open>The JSON text \<^verbatim>\<open>{"a":1}\<close>.\<close>

definition exampleJson :: string where
  "exampleJson = ''{'' @ [CHR 0x22] @ ''a'' @ [CHR 0x22] @ '':1}''"

definition exampleRequest :: Request where
  "exampleRequest = \<lparr>Method = ''POST'', URL = ''http://example.com/'', Body = RawBody ''a=1'',
     Header = Map.empty, Host = ''example.com'', Ctx = Background\<rparr>"

definition exampleClient :: Client where
  "exampleClient = \<lparr>header = [], cookies = [], prefix = [], authUser = [], authPass = [],
     agent = [], ctx = None, retryCount = 0, retryInterval = 0, browserMode = False,
     middlewareHandler = []\<rparr>"

definition exampleEnv :: "bool Env" where
  "exampleEnv = \<lparr>
     Do = (\<lambda>i req. DoErr None (External (''refused '' @ replicate i (CHR ''I'')))),
     bodyRead = (\<lambda>i req. 0),
     MiddlewareNext = (\<lambda>c tr req. ((None, None), c, tr)),
     timeNow = \<lparr>sec = 63928915200, nsec = 0\<rparr>,
     BuildParams = (\<lambda>d. case d of GString s \<Rightarrow> s | GBytes s \<Rightarrow> s | GOther _ \<Rightarrow> []),
     jsonMarshal = (\<lambda>v. if v then Inr ''true'' else Inl (External ''json: unsupported value'')),
     VarToXml = (\<lambda>v. if v then Inr ''<doc>true</doc>'' else Inl (External ''xml: unsupported value'')),
     jsonValid = (\<lambda>s. s = exampleJson),
     gstrTrim = (\<lambda>s. s),
     fileExists = (\<lambda>p. p = ''/tmp/a.txt''),
     fileBasename = (\<lambda>p. if p = ''/tmp/a.txt'' then ''a.txt'' else p),
     osOpen = (\<lambda>p. None),
     ioCopy = (\<lambda>p. Inr ''hello''),
     createFormFile = (\<lambda>k f. None),
     writeField = (\<lambda>k v. None),
     writerClose = None,
     formDataContentType = ''multipart/form-data; boundary=b'',
     newRequestError = (\<lambda>m u. None),
     urlHost = (\<lambda>u. []),
     basicAuth = (\<lambda>u p. u @ '':'' @ p)\<rparr>"

text \<open>A client in browser mode with one retry.\<close>

definition browserClient :: Client where
  "browserClient = exampleClient\<lparr>browserMode := True, retryCount := 1\<rparr>"

text \<open>A client configured with \<^verbatim>\<open>Content-Type: application/json\<close>.\<close>

definition jsonClient :: Client where
  "jsonClient = exampleClient\<lparr>header := [(''Content-Type'', ''application/json'')]\<rparr>"

text \<open>
  A response that sets the cookie \<^verbatim>\<open>session\<close> with the expiry 9999-12-31 23:59:59 UTC, a
  transport that answers every send with it, and a browser-mode client that already stores
  a \<^verbatim>\<open>session\<close> cookie.
\<close>

definition longLivedCookie :: Cookie where
  "longLivedCookie = \<lparr>Name = ''session'', Value = ''new'',
     Expires = \<lparr>sec = 315537897599, nsec = 0\<rparr>\<rparr>"

definition cookieEnv :: "bool Env" where
  "cookieEnv = exampleEnv\<lparr>Do := (\<lambda>i req. DoOk \<lparr>StatusCode = 200, Cookies = [longLivedCookie]\<rparr>)\<rparr>"

definition sessionClient :: Client where
  "sessionClient = exampleClient\<lparr>browserMode := True, cookies := [(''session'', ''old'')]\<rparr>"

text \<open>A filesystem where \<^verbatim>\<open>/tmp/a.txt\<close> exists but cannot be opened.\<close>

definition lockedEnv :: "bool Env" where
  "lockedEnv = exampleEnv\<lparr>osOpen := (\<lambda>p. Some (External ''open /tmp/a.txt: permission denied''))\<rparr>"

text \<open>A client configured with \<^verbatim>\<open>Content-Type: application/xml\<close>.\<close>

definition xmlClient :: Client where
  "xmlClient = exampleClient\<lparr>header := [(''Content-Type'', ''application/xml'')]\<rparr>"

section \<open>Properties\<close>

subsection \<open>The retry loop\<close>

declare callLoop.simps [simp del]

lemma sendCount_append [simp]: "sendCount (a @ b) = sendCount a + sendCount b"
  by (simp add: sendCount_def)

lemma sendCount_simps [simp]:
  "sendCount [] = 0" "sendCount (Sent r # tr) = Suc (sendCount tr)"
  "sendCount (Slept d # tr) = sendCount tr" "sendCount (BodyClosed # tr) = sendCount tr"
  by (simp_all add: sendCount_def)

lemma bodyFrom_0 [simp]: "bodyFrom 0 b = b"
  by (cases b) (simp_all add: bodyFrom_def)

lemma restoreBody_simps [simp]:
  "restoreBody (Body req) (Sent (req\<lparr>Body := b\<rparr>)) = Sent req"
  "restoreBody b' (Slept d) = Slept d"
  "restoreBody b' BodyClosed = BodyClosed"
  by (simp_all add: restoreBody_def)

lemma callLoop_all_fail:
  assumes fails: "\<forall>i. doError (Do env i req) \<noteq> None"
  shows "nat (retryCount c) = n \<Longrightarrow> 0 \<le> retryCount c \<Longrightarrow>
    callLoop env c tr req off resp = ((resp', err), c', tr') \<Longrightarrow>
    (\<exists>added. tr' = tr @ added \<and>
       hd added = Sent (req\<lparr>Body := bodyFrom off (Body req)\<rparr>) \<and>
       map (restoreBody (Body req)) (filter (\<lambda>e. e \<noteq> BodyClosed) added) =
         Sent req # concat (replicate n [Slept (retryInterval c), Sent req])) \<and>
    err = doError (Do env (sendCount tr + n) req) \<and>
    c' = c\<lparr>retryCount := 0\<rparr>"
proof (induction n arbitrary: c tr off resp)
  case 0
  from fails obtain ro e where d: "Do env (sendCount tr) req = DoErr ro e"
    by (metis doError_def DoResult.exhaust DoResult.simps(5))
  from 0 have z: "retryCount c = 0" by simp
  from 0(3) d z show ?case
    by (subst (asm) callLoop.simps) (auto simp: doError_def split: option.splits)
next
  case (Suc n)
  from fails obtain ro e where d: "Do env (sendCount tr) req = DoErr ro e"
    by (metis doError_def DoResult.exhaust DoResult.simps(5))
  let ?c = "c\<lparr>retryCount := retryCount c - 1\<rparr>"
  let ?tr = "(tr @ [Sent (req\<lparr>Body := bodyFrom off (Body req)\<rparr>)] @
      (case ro of None \<Rightarrow> [] | Some _ \<Rightarrow> [BodyClosed])) @ [Slept (retryInterval c)]"
  from Suc.prems have pos: "retryCount c > 0" by simp
  from Suc.prems(3) d pos
  have rec: "callLoop env ?c ?tr req (off + bodyRead env (sendCount tr) req)
      (resp\<lparr>Response := ro\<rparr>) = ((resp', err), c', tr')"
    by (subst (asm) callLoop.simps) (simp add: Let_def)
  have n: "nat (retryCount ?c) = n" "0 \<le> retryCount ?c" using Suc.prems by auto
  from Suc.IH[OF n rec] show ?case
    by (auto split: option.splits)
qed

lemma sleepCount_append [simp]: "sleepCount (a @ b) = sleepCount a + sleepCount b"
  by (simp add: sleepCount_def)

lemma sleepCount_simps [simp]:
  "sleepCount [] = 0" "sleepCount (Sent r # tr) = sleepCount tr"
  "sleepCount (Slept d # tr) = Suc (sleepCount tr)" "sleepCount (BodyClosed # tr) = sleepCount tr"
  by (simp_all add: sleepCount_def)

lemma callLoop_budget:
  "callLoop env c tr req off resp = ((resp', err), c', tr') \<Longrightarrow>
     \<exists>added. tr' = tr @ added \<and> c' = c\<lparr>retryCount := retryCount c - int (sleepCount added)\<rparr>
       \<and> sendCount added = sleepCount added + 1"
proof (induction env c tr req off resp rule: callLoop.induct)
  case (1 env c tr req off resp)
  show ?case
  proof (cases "Do env (sendCount tr) req")
    case (DoOk r)
    with "1.prems" show ?thesis
      by (subst (asm) callLoop.simps) auto
  next
    case (DoErr ro e)
    show ?thesis
    proof (cases "retryCount c > 0")
      case True
      let ?tr1 = "tr @ [Sent (req\<lparr>Body := bodyFrom off (Body req)\<rparr>)] @
          (case ro of None \<Rightarrow> [] | Some _ \<Rightarrow> [BodyClosed])"
      from "1.prems" DoErr True
      have rec: "callLoop env (c\<lparr>retryCount := retryCount c - 1\<rparr>)
                  (?tr1 @ [Slept (retryInterval c)]) req
                  (off + bodyRead env (sendCount tr) req) (resp\<lparr>Response := ro\<rparr>)
                 = ((resp', err), c', tr')"
        by (subst (asm) callLoop.simps) (simp add: Let_def)
      from "1.IH"[OF DoErr refl True rec] show ?thesis
        by (auto split: option.splits)
    next
      case False
      with "1.prems" DoErr show ?thesis
        by (subst (asm) callLoop.simps) (auto split: option.splits)
    qed
  qed
qed

text \<open>
  Claim C1, amended. When the transport fails on every attempt and the client's
  \<^verbatim>\<open>retryCount\<close> field holds \<open>N \<ge> 0\<close> when \<^verbatim>\<open>callRequest\<close> starts, the call makes exactly
  \<open>N + 1\<close> sends: the events it adds to the trace are a send of the request followed by
  \<open>N\<close> times a sleep of the retry interval and a send of the same request (with what is
  left of its body; closing a response body apart), and the error it returns is the one of
  the last send.
\<close>

theorem callRequest_retry_attempts:
  assumes "\<forall>i. doError (Do env i req) \<noteq> None"
    and "0 \<le> retryCount c"
    and "callRequest env c tr req = ((resp, err), c', tr')"
  shows "(\<exists>added. tr' = tr @ added \<and> hd added = Sent req \<and>
            map (restoreBody (Body req)) (filter (\<lambda>e. e \<noteq> BodyClosed) added) =
              Sent req # concat (replicate (nat (retryCount c)) [Slept (retryInterval c), Sent req]))
       \<and> sendCount tr' = sendCount tr + nat (retryCount c) + 1
       \<and> err = doError (Do env (sendCount tr + nat (retryCount c)) req)"
proof -
  from assms(3) have loop: "callLoop env c tr req 0
      \<lparr>Response = None, request = req, requestBody = Body req\<rparr> = ((resp, err), c', tr')"
    by (simp add: callRequest_def)
  from callLoop_all_fail[OF assms(1) refl assms(2) loop]
  have a: "\<exists>added. tr' = tr @ added \<and> hd added = Sent req \<and>
            map (restoreBody (Body req)) (filter (\<lambda>e. e \<noteq> BodyClosed) added) =
              Sent req # concat (replicate (nat (retryCount c)) [Slept (retryInterval c), Sent req])"
    and e: "err = doError (Do env (sendCount tr + nat (retryCount c)) req)"
    and c': "c' = c\<lparr>retryCount := 0\<rparr>"
    by simp_all
  from callLoop_budget[OF loop] obtain added where
    b: "tr' = tr @ added" "c' = c\<lparr>retryCount := retryCount c - int (sleepCount added)\<rparr>"
       "sendCount added = sleepCount added + 1"
    by blast
  from b(2) c' have "retryCount c - int (sleepCount added) = 0"
    by (metis Client.select_convs(8) Client.surjective Client.update_convs(8))
  with assms(2) have "sleepCount added = nat (retryCount c)" by simp
  with b have "sendCount tr' = sendCount tr + nat (retryCount c) + 1" by simp
  with a e show ?thesis by blast
qed

lemma callRequest_example:
  "callRequest exampleEnv (exampleClient\<lparr>retryCount := 2, retryInterval := 5\<rparr>) [] exampleRequest =
     ((\<lparr>Response = None, request = exampleRequest, requestBody = RawBody ''a=1''\<rparr>,
       Some (External ''refused II'')),
      exampleClient\<lparr>retryCount := 0, retryInterval := 5\<rparr>,
      [Sent exampleRequest, Slept 5, Sent exampleRequest, Slept 5, Sent exampleRequest])"
  by (simp add: callRequest_def callLoop.simps exampleEnv_def exampleClient_def exampleRequest_def)

text \<open>A transport that reads three bytes of the body at every send: the retry finds none.\<close>

lemma callRequest_retry_after_body_read:
  "snd (snd (callRequest (exampleEnv\<lparr>bodyRead := (\<lambda>i req. 3)\<rparr>)
       (exampleClient\<lparr>retryCount := 1\<rparr>) [] exampleRequest)) =
     [Sent exampleRequest, Slept 0, Sent (exampleRequest\<lparr>Body := RawBody []\<rparr>)]"
  by (simp add: callRequest_def callLoop.simps bodyFrom_def exampleEnv_def exampleClient_def
      exampleRequest_def)

theorem callRequest_retry_attempts_witness:
  "sendCount (snd (snd (callRequest exampleEnv
       (exampleClient\<lparr>retryCount := 2, retryInterval := 5\<rparr>) [] exampleRequest))) = 3
   \<and> snd (snd (callRequest exampleEnv
       (exampleClient\<lparr>retryCount := 2, retryInterval := 5\<rparr>) [] exampleRequest)) =
       [Sent exampleRequest, Slept 5, Sent exampleRequest, Slept 5, Sent exampleRequest]
   \<and> snd (fst (callRequest exampleEnv
       (exampleClient\<lparr>retryCount := 2, retryInterval := 5\<rparr>) [] exampleRequest)) =
       Some (External ''refused II'')"
proof -
  let ?c = "exampleClient\<lparr>retryCount := 2, retryInterval := 5\<rparr>"
  have fails: "\<forall>i. doError (Do exampleEnv i exampleRequest) \<noteq> None"
    by (simp add: exampleEnv_def doError_def)
  have budget: "0 \<le> retryCount ?c" by simp
  note r = callRequest_example
  from callRequest_retry_attempts[OF fails budget r]
  have "sendCount [Sent exampleRequest, Slept 5, Sent exampleRequest, Slept 5, Sent exampleRequest]
          = sendCount [] + nat (retryCount ?c) + 1"
    and "Some (External ''refused II'') = doError (Do exampleEnv (sendCount [] + nat (retryCount ?c)) exampleRequest)"
    by blast+
  then show ?thesis by (simp add: r)
qed


lemma callRequest_example_again:
  "callRequest exampleEnv (exampleClient\<lparr>retryCount := 0, retryInterval := 5\<rparr>)
      [Sent exampleRequest, Slept 5, Sent exampleRequest, Slept 5, Sent exampleRequest] exampleRequest =
     ((\<lparr>Response = None, request = exampleRequest, requestBody = RawBody ''a=1''\<rparr>,
       Some (External ''refused III'')),
      exampleClient\<lparr>retryCount := 0, retryInterval := 5\<rparr>,
      [Sent exampleRequest, Slept 5, Sent exampleRequest, Slept 5, Sent exampleRequest, Sent exampleRequest])"
  by (simp add: callRequest_def callLoop.simps exampleEnv_def exampleClient_def exampleRequest_def)

text \<open>
  As claim C1 is worded, \<open>N\<close> is the count the client was configured with. A client
  configured with 2 retries makes 3 sends in its first call against a transport that always
  fails, and one send in its second call: the first call has used the count up.
\<close>

theorem second_call_makes_one_send:
  "sendCount (snd (snd (callRequest exampleEnv
       (exampleClient\<lparr>retryCount := 2, retryInterval := 5\<rparr>) [] exampleRequest))) = 2 + 1
   \<and> sendCount (snd (snd (callRequest exampleEnv
       (fst (snd (callRequest exampleEnv
          (exampleClient\<lparr>retryCount := 2, retryInterval := 5\<rparr>) [] exampleRequest)))
       (snd (snd (callRequest exampleEnv
          (exampleClient\<lparr>retryCount := 2, retryInterval := 5\<rparr>) [] exampleRequest)))
       exampleRequest))) = (2 + 1) + 1"
  by (simp add: callRequest_example callRequest_example_again)


subsection \<open>Evaluating the string helpers\<close>

lemmas stringDefs = stringsToUpper_def toUpperByte_def toLowerByte_def lowerLetters_def
  upperLetters_def digits_def

lemma upper_literals:
  "stringsToUpper ''get'' = ''GET''"
  "stringsToUpper ''POST'' = ''POST''"
  "stringsToUpper ''PUT'' = ''PUT''"
  by (simp_all add: stringDefs)

lemma canonical_literals:
  "CanonicalMIMEHeaderKey ''Content-Type'' = ''Content-Type''"
  "CanonicalMIMEHeaderKey ''Host'' = ''Host''"
  "CanonicalMIMEHeaderKey ''Cookie'' = ''Cookie''"
  "CanonicalMIMEHeaderKey ''Authorization'' = ''Authorization''"
  "CanonicalMIMEHeaderKey ''User-Agent'' = ''User-Agent''"
  by (simp_all add: CanonicalMIMEHeaderKey_def validHeaderFieldByte_def stringDefs Let_def)

subsection \<open>GET: the parameters join the URL\<close>

lemma finishRequest_frame [simp]:
  "URL (finishRequest env c req) = URL req"
  "Body (finishRequest env c req) = Body req"
  "Method (finishRequest env c req) = Method req"
  by (simp_all add: finishRequest_def Let_def)

text \<open>
  Claim C6. For a GET call whose parameter string is not empty, \<^verbatim>\<open>prepareRequest\<close> hands
  to \<^verbatim>\<open>http.NewRequest\<close> the URL followed by \<^verbatim>\<open>&\<close> and the string when the URL contains
  \<^verbatim>\<open>?\<close>, by \<^verbatim>\<open>?\<close> and the string otherwise; the request it returns has that URL and an
  empty body (and it returns one unless \<^verbatim>\<open>http.NewRequest\<close> refuses).
\<close>

theorem get_params_join_url:
  assumes "stringsToUpper method = ''GET''"
    and "encodeParam env c data = Inr param"
    and "param \<noteq> []"
    and "base = (if length (prefix c) > 0 then prefix c @ gstrTrim env url else url)"
    and "target = (if stringsContains base ''?'' then base @ ''&'' @ param else base @ ''?'' @ param)"
  shows "case newRequestError env ''GET'' target of
           Some e \<Rightarrow> prepareRequest env c method url data = Failed e
         | None \<Rightarrow> (\<exists>req. prepareRequest env c method url data = Done req \<and>
                      Method req = ''GET'' \<and> URL req = target \<and> Body req = RawBody [])"
  using assms
  by (auto simp: prepareRequest_def buildRequest_def NewRequest_def Let_def split: option.splits)

theorem get_params_join_url_witness:
  "\<exists>req. prepareRequest exampleEnv exampleClient ''get'' ''http://h/p?x=1'' [GString ''a=1''] = Done req \<and>
     Method req = ''GET'' \<and> URL req = ''http://h/p?x=1&a=1'' \<and> Body req = RawBody []"
proof -
  have enc: "encodeParam exampleEnv exampleClient [GString ''a=1''] = Inr ''a=1''"
    by (simp add: encodeParam_def exampleEnv_def exampleClient_def)
  have ne: "''a=1'' \<noteq> []" by simp
  have base: "''http://h/p?x=1'' = (if length (prefix exampleClient) > 0
      then prefix exampleClient @ gstrTrim exampleEnv ''http://h/p?x=1'' else ''http://h/p?x=1'')"
    by (simp add: exampleClient_def)
  have target: "''http://h/p?x=1&a=1'' = (if stringsContains ''http://h/p?x=1'' ''?''
      then ''http://h/p?x=1'' @ ''&'' @ ''a=1'' else ''http://h/p?x=1'' @ ''?'' @ ''a=1'')"
    by simp
  have ok: "newRequestError exampleEnv ''GET'' ''http://h/p?x=1&a=1'' = None"
    by (simp add: exampleEnv_def)
  from get_params_join_url[OF upper_literals(1) enc ne base target] ok
  show ?thesis by simp
qed

subsection \<open>The multipart loop reads index 1 of every item\<close>

lemma stringsSplit_not_Nil [simp]: "stringsSplit sep s \<noteq> []"
  by (induction s) (auto split: list.splits)

lemma length_stringsSplit:
  "length (stringsSplit sep s) = Suc (length (filter (\<lambda>x. x = sep) s))"
  by (induction s) (auto split: list.splits)

lemma stringsSplit_two_iff: "2 \<le> length (stringsSplit sep s) \<longleftrightarrow> sep \<in> set s"
proof -
  have "0 < length (filter (\<lambda>x. x = sep) s) \<longleftrightarrow> sep \<in> set s"
    by (induction s) auto
  then show ?thesis by (simp add: length_stringsSplit Suc_le_eq)
qed

lemma writeItem_panic_iff:
  "(\<exists>p. writeItem env item = Panicked p) \<longleftrightarrow> CHR ''='' \<notin> set item"
proof (cases "length (stringsSplit (CHR ''='') item) \<le> 1")
  case True
  then have "CHR ''='' \<notin> set item" using stringsSplit_two_iff[of "CHR ''=''" item] by simp
  with True show ?thesis by (simp add: writeItem_def Let_def)
next
  case False
  then have "CHR ''='' \<in> set item" using stringsSplit_two_iff[of "CHR ''=''" item] by simp
  with False show ?thesis
    by (auto simp: writeItem_def Let_def split: option.splits sum.splits)
qed

lemma writeItem_panic_value:
  assumes "writeItem env item = Panicked p"
  shows "p = IndexOutOfRange 1 1"
proof -
  from assms have "CHR ''='' \<notin> set item" using writeItem_panic_iff by blast
  then have "length (stringsSplit (CHR ''='') item) = 1"
    by (auto simp: length_stringsSplit filter_empty_conv)
  with assms show ?thesis by (simp add: writeItem_def Let_def)
qed

lemma writeItems_no_panic:
  "\<forall>item \<in> set items. CHR ''='' \<in> set item \<Longrightarrow> writeItems env acc items \<noteq> Panicked p"
proof (induction items arbitrary: acc)
  case Nil
  then show ?case by simp
next
  case (Cons item items)
  from Cons.prems have "CHR ''='' \<in> set item" by simp
  then have "\<not> (\<exists>p. writeItem env item = Panicked p)"
    using writeItem_panic_iff[of env item] by simp
  with Cons show ?case
    by (cases "writeItem env item") auto
qed

lemma writeItems_reaches_panic:
  "writeItems env acc pre = Done ps \<Longrightarrow> CHR ''='' \<notin> set item \<Longrightarrow>
     writeItems env acc (pre @ item # post) = Panicked (IndexOutOfRange 1 1)"
proof (induction pre arbitrary: acc)
  case Nil
  then obtain p where "writeItem env item = Panicked p" using writeItem_panic_iff by blast
  then show ?case using writeItem_panic_value by fastforce
next
  case (Cons a pre)
  then show ?case by (cases "writeItem env a") auto
qed

text \<open>
  Claim C9. In the multipart branch every \<^verbatim>\<open>&\<close>-item is split on \<^verbatim>\<open>=\<close> and its element
  1 is read. The split has that element exactly when the item contains \<^verbatim>\<open>=\<close>; an item
  panics exactly when it contains none; a list of items that all contain \<^verbatim>\<open>=\<close> never
  panics; the first item without \<^verbatim>\<open>=\<close> that the loop reaches panics with an index out of
  range. A public call reaches it: a client configured with the JSON content type, method
  POST and the string \<^verbatim>\<open>note&f=@file:/tmp/a.txt\<close>.
\<close>

theorem multipart_item_index_out_of_range:
  "(2 \<le> length (stringsSplit (CHR ''='') item) \<longleftrightarrow> CHR ''='' \<in> set item)
   \<and> ((\<exists>p. writeItem env item = Panicked p) \<longleftrightarrow> CHR ''='' \<notin> set item)
   \<and> ((\<forall>item \<in> set items. CHR ''='' \<in> set item) \<longrightarrow>
         (\<forall>p. writeItems env acc items \<noteq> Panicked p))
   \<and> (writeItems env acc pre = Done ps \<and> CHR ''='' \<notin> set item \<longrightarrow>
         writeItems env acc (pre @ item # post) = Panicked (IndexOutOfRange 1 1))
   \<and> DoRequest exampleEnv jsonClient [] ''POST'' ''http://h/'' [GString ''note&f=@file:/tmp/a.txt'']
       = (Panics (IndexOutOfRange 1 1), jsonClient, [])"
proof -
  have "DoRequest exampleEnv jsonClient [] ''POST'' ''http://h/'' [GString ''note&f=@file:/tmp/a.txt'']
       = (Panics (IndexOutOfRange 1 1), jsonClient, [])"
    by (simp add: DoRequest_def prepareRequest_def upper_literals encodeParam_def buildRequest_def
        writeItem_def jsonClient_def exampleClient_def Let_def)
  then show ?thesis
    using stringsSplit_two_iff writeItem_panic_iff writeItems_no_panic writeItems_reaches_panic
    by blast
qed

theorem multipart_item_index_out_of_range_witness:
  "(\<exists>p. writeItem exampleEnv ''note'' = Panicked p)
   \<and> (\<forall>p. writeItems exampleEnv [] [''a=1'', ''b=2''] \<noteq> Panicked p)
   \<and> writeItems exampleEnv [] [''a=1'', ''note'', ''b=2''] = Panicked (IndexOutOfRange 1 1)"
proof -
  have no_eq: "CHR ''='' \<notin> set ''note''" by simp
  have all_eq: "\<forall>item \<in> set [''a=1'', ''b=2'']. CHR ''='' \<in> set item" by simp
  have pre: "writeItems exampleEnv [] [''a=1''] = Done [FormField ''a'' ''1'']"
    by (simp add: writeItem_def exampleEnv_def Let_def)
  from multipart_item_index_out_of_range[of "''note''" exampleEnv "[''a=1'', ''b=2'']" "[]"
      "[''a=1'']" "[FormField ''a'' ''1'']" "[''b=2'']"] no_eq all_eq pre
  show ?thesis by simp
qed

subsection \<open>Browser mode after a failed transport\<close>

lemma callLoop_last_attempt:
  "callLoop env c tr req off resp = ((resp', err), c', tr') \<Longrightarrow>
     sendCount tr < sendCount tr' \<and>
     (case Do env (sendCount tr' - 1) req of
        DoOk r \<Rightarrow> Response resp' = Some r \<and> err = None
      | DoErr ro e \<Rightarrow> Response resp' = ro \<and> err = Some e)"
proof (induction env c tr req off resp rule: callLoop.induct)
  case (1 env c tr req off resp)
  show ?case
  proof (cases "Do env (sendCount tr) req")
    case (DoOk r)
    with "1.prems" show ?thesis
      by (subst (asm) callLoop.simps) auto
  next
    case (DoErr ro e)
    show ?thesis
    proof (cases "retryCount c > 0")
      case True
      let ?tr1 = "tr @ [Sent (req\<lparr>Body := bodyFrom off (Body req)\<rparr>)] @
          (case ro of None \<Rightarrow> [] | Some _ \<Rightarrow> [BodyClosed])"
      from "1.prems" DoErr True
      have rec: "callLoop env (c\<lparr>retryCount := retryCount c - 1\<rparr>)
                  (?tr1 @ [Slept (retryInterval c)]) req
                  (off + bodyRead env (sendCount tr) req) (resp\<lparr>Response := ro\<rparr>)
                 = ((resp', err), c', tr')"
        by (subst (asm) callLoop.simps) (simp add: Let_def)
      from "1.IH"[OF DoErr refl True rec] show ?thesis
        by (auto split: option.splits)
    next
      case False
      with "1.prems" DoErr show ?thesis
        by (subst (asm) callLoop.simps) (auto split: option.splits)
    qed
  qed
qed

text \<open>
  Claim C10. \<^verbatim>\<open>callRequest\<close> always returns a response wrapper; when its last send fails
  without a response, the wrapper's embedded \<^verbatim>\<open>Response\<close> is nil and the error is the
  transport's. \<^verbatim>\<open>DoRequest\<close> in browser mode tests the wrapper only, so it calls
  \<^verbatim>\<open>Cookies()\<close> on the nil response: the call panics with a nil pointer dereference.
\<close>

theorem browser_mode_dereferences_nil_response:
  assumes "prepareRequest env c method url data = Done req"
    and "middlewareHandler c = []"
    and "browserMode c"
    and "callRequest env c tr req = ((resp, err), c', tr')"
    and "Do env (sendCount tr' - 1) req = DoErr None e"
  shows "Response resp = None \<and> err = Some e \<and>
         DoRequest env c tr method url data = (Panics NilPointerDereference, c', tr')"
proof -
  from assms(4) have loop: "callLoop env c tr req 0
      \<lparr>Response = None, request = req, requestBody = Body req\<rparr> = ((resp, err), c', tr')"
    by (simp add: callRequest_def)
  from callLoop_last_attempt[OF loop] assms(5)
  have r: "Response resp = None" "err = Some e" by simp_all
  from callLoop_budget[OF loop] obtain added where
    "c' = c\<lparr>retryCount := retryCount c - int (sleepCount added)\<rparr>" by blast
  then have "browserMode c' = browserMode c" by simp
  with assms(3) have b: "browserMode c'" by simp
  from assms(1,2,4) r b show ?thesis
    by (simp add: DoRequest_def)
qed

lemmas prepareDefs = prepareRequest_def encodeParam_def buildRequest_def NewRequest_def
  setContentType_def sniffContentType_def isMatchFormPattern_def wordOrBracket_def
  finishRequest_def headerSet_def headerGet_def cookieHeader_def Let_def

lemma prepare_form_example:
  "prepareRequest exampleEnv browserClient ''POST'' ''http://example.com/'' [GString ''a=1''] =
     Done (exampleRequest\<lparr>Header := [''Content-Type'' \<mapsto> ''application/x-www-form-urlencoded''],
                           Host := []\<rparr>)"
  by (simp add: prepareDefs upper_literals canonical_literals stringDefs browserClient_def
      exampleClient_def exampleEnv_def exampleJson_def exampleRequest_def)

lemma call_form_example:
  "callRequest exampleEnv browserClient []
       (exampleRequest\<lparr>Header := [''Content-Type'' \<mapsto> ''application/x-www-form-urlencoded''],
                        Host := []\<rparr>) =
     ((\<lparr>Response = None,
        request = exampleRequest\<lparr>Header := [''Content-Type'' \<mapsto> ''application/x-www-form-urlencoded''],
                                 Host := []\<rparr>,
        requestBody = RawBody ''a=1''\<rparr>,
       Some (External ''refused I'')),
      browserClient\<lparr>retryCount := 0\<rparr>,
      [Sent (exampleRequest\<lparr>Header := [''Content-Type'' \<mapsto> ''application/x-www-form-urlencoded''],
                             Host := []\<rparr>),
       Slept 0,
       Sent (exampleRequest\<lparr>Header := [''Content-Type'' \<mapsto> ''application/x-www-form-urlencoded''],
                             Host := []\<rparr>)])"
  by (simp add: callRequest_def callLoop.simps exampleEnv_def browserClient_def exampleClient_def
      exampleRequest_def)

theorem browser_mode_dereferences_nil_response_witness:
  "DoRequest exampleEnv browserClient [] ''POST'' ''http://example.com/'' [GString ''a=1''] =
     (Panics NilPointerDereference, browserClient\<lparr>retryCount := 0\<rparr>,
      [Sent (exampleRequest\<lparr>Header := [''Content-Type'' \<mapsto> ''application/x-www-form-urlencoded''],
                             Host := []\<rparr>),
       Slept 0,
       Sent (exampleRequest\<lparr>Header := [''Content-Type'' \<mapsto> ''application/x-www-form-urlencoded''],
                             Host := []\<rparr>)])"
proof -
  have mw: "middlewareHandler browserClient = []"
    by (simp add: browserClient_def exampleClient_def)
  have bm: "browserMode browserClient"
    by (simp add: browserClient_def)
  have last: "Do exampleEnv
      (sendCount [Sent (exampleRequest\<lparr>Header := [''Content-Type'' \<mapsto> ''application/x-www-form-urlencoded''],
                             Host := []\<rparr>),
       Slept 0,
       Sent (exampleRequest\<lparr>Header := [''Content-Type'' \<mapsto> ''application/x-www-form-urlencoded''],
                             Host := []\<rparr>)] - 1)
      (exampleRequest\<lparr>Header := [''Content-Type'' \<mapsto> ''application/x-www-form-urlencoded''],
                             Host := []\<rparr>) = DoErr None (External ''refused I'')"
    by (simp add: exampleEnv_def)
  from browser_mode_dereferences_nil_response[OF prepare_form_example mw bm call_form_example last]
  show ?thesis by simp
qed

subsection \<open>Cookies of a browser-mode response\<close>

lemma int64_id: "- (2 ^ 63) \<le> x \<Longrightarrow> x < 2 ^ 63 \<Longrightarrow> int64 x = x"
  by (simp add: int64_def)

lemma UnixNano_less_iff:
  assumes "fitsInt64 t" and "fitsInt64 u"
  shows "UnixNano t < UnixNano u \<longleftrightarrow> Before t u"
proof -
  let ?a = "sec t - unixToInternal" and ?b = "sec u - unixToInternal"
  from assms have t: "UnixNano t = ?a * 1000000000 + nsec t"
    and u: "UnixNano u = ?b * 1000000000 + nsec u"
    by (simp_all add: UnixNano_def fitsInt64_def int64_id)
  from assms have r: "0 \<le> nsec t" "nsec t < 1000000000" "0 \<le> nsec u" "nsec u < 1000000000"
    by (simp_all add: fitsInt64_def)
  have "?a * 1000000000 + nsec t < ?b * 1000000000 + nsec u \<longleftrightarrow>
        ?a < ?b \<or> (?a = ?b \<and> nsec t < nsec u)"
    using r by auto
  then show ?thesis by (simp add: t u Before_def)
qed

lemma reconcileCookie_within_int64:
  assumes "fitsInt64 (Expires v)" and "fitsInt64 now"
  shows "reconcileCookie now store v =
     (if \<not> IsZero (Expires v) \<and> Before (Expires v) now
      then AList.delete (Name v) store
      else AList.update (Name v) (Value v) store)"
  by (simp add: reconcileCookie_def UnixNano_less_iff[OF assms])

text \<open>
  Inside that range the loop does what the expiry says: the cookie's name is removed from
  the store when the cookie has expired and is bound to the cookie's value otherwise, so
  the last cookie of a name decides; the other names are left alone.
\<close>

lemma reconcileCookie_lookup:
  assumes "fitsInt64 (Expires v)" and "fitsInt64 now"
  shows "map_of (reconcileCookie now store v) (Name v) =
     (if \<not> IsZero (Expires v) \<and> Before (Expires v) now then None else Some (Value v))"
  by (simp add: reconcileCookie_within_int64[OF assms] update_conv' delete_conv')

lemma reconcileCookie_other_names:
  "n \<noteq> Name v \<Longrightarrow> map_of (reconcileCookie now store v) n = map_of store n"
  by (simp add: reconcileCookie_def update_conv' delete_conv')

lemma UnixNano_longLived: "UnixNano (Expires longLivedCookie) = - 4852116232933722624"
  by (simp add: longLivedCookie_def UnixNano_def int64_def unixToInternal_def)

lemma UnixNano_now: "UnixNano (timeNow cookieEnv) = 1793318400000000000"
  by (simp add: cookieEnv_def exampleEnv_def UnixNano_def int64_def unixToInternal_def)

lemma prepare_session_example:
  "prepareRequest cookieEnv sessionClient ''POST'' ''http://example.com/'' [GString ''a=1''] =
     Done (exampleRequest\<lparr>Header := [''Content-Type'' \<mapsto> ''application/x-www-form-urlencoded'',
                                      ''Cookie'' \<mapsto> ''session=old''],
                           Host := []\<rparr>)"
  by (simp add: prepareDefs upper_literals canonical_literals stringDefs sessionClient_def
      exampleClient_def cookieEnv_def exampleEnv_def exampleJson_def exampleRequest_def)

text \<open>
  Claim C7 reads the expiry as an instant: a cookie whose expiry is set and lies before the
  time of evaluation is deleted, any other cookie is stored. The code compares
  \<^verbatim>\<open>UnixNano()\<close> values, which wrap around outside the years 1678 to 2262. A response
  cookie \<^verbatim>\<open>session=new\<close> expiring on 9999-12-31 23:59:59 UTC, received on 2026-10-30 by a
  browser-mode client that stores \<^verbatim>\<open>session=old\<close>, has an expiry that is set and lies after
  the time of evaluation; \<^verbatim>\<open>DoRequest\<close> deletes the stored entry instead of storing the new
  value.
\<close>

theorem cookie_expiring_after_2262_is_deleted:
  "\<not> IsZero (Expires longLivedCookie)
   \<and> Before (timeNow cookieEnv) (Expires longLivedCookie)
   \<and> DoRequest cookieEnv sessionClient [] ''POST'' ''http://example.com/'' [GString ''a=1''] =
       (Returns
          (Some \<lparr>Response = Some \<lparr>StatusCode = 200, Cookies = [longLivedCookie]\<rparr>,
                 request = exampleRequest\<lparr>Header := [''Content-Type'' \<mapsto> ''application/x-www-form-urlencoded'',
                                      ''Cookie'' \<mapsto> ''session=old''], Host := []\<rparr>,
                 requestBody = RawBody ''a=1''\<rparr>)
          None,
        sessionClient\<lparr>cookies := []\<rparr>,
        [Sent (exampleRequest\<lparr>Header := [''Content-Type'' \<mapsto> ''application/x-www-form-urlencoded'',
                                      ''Cookie'' \<mapsto> ''session=old''], Host := []\<rparr>)])"
proof -
  have call: "callRequest cookieEnv sessionClient []
      (exampleRequest\<lparr>Header := [''Content-Type'' \<mapsto> ''application/x-www-form-urlencoded'',
                                      ''Cookie'' \<mapsto> ''session=old''], Host := []\<rparr>) =
    ((\<lparr>Response = Some \<lparr>StatusCode = 200, Cookies = [longLivedCookie]\<rparr>,
                 request = exampleRequest\<lparr>Header := [''Content-Type'' \<mapsto> ''application/x-www-form-urlencoded'',
                                      ''Cookie'' \<mapsto> ''session=old''], Host := []\<rparr>,
                 requestBody = RawBody ''a=1''\<rparr>, None), sessionClient,
      [Sent (exampleRequest\<lparr>Header := [''Content-Type'' \<mapsto> ''application/x-www-form-urlencoded'',
                                      ''Cookie'' \<mapsto> ''session=old''], Host := []\<rparr>)])"
    by (simp add: callRequest_def callLoop.simps cookieEnv_def exampleEnv_def exampleRequest_def)
  have sync: "syncCookies (timeNow cookieEnv) [longLivedCookie] [(''session'', ''old'')] = []"
    by (simp add: syncCookies_def reconcileCookie_def UnixNano_longLived UnixNano_now IsZero_def)
       (simp add: longLivedCookie_def)
  have t: "\<not> IsZero (Expires longLivedCookie)" "Before (timeNow cookieEnv) (Expires longLivedCookie)"
    by (simp_all add: IsZero_def Before_def longLivedCookie_def cookieEnv_def exampleEnv_def)
  have "middlewareHandler sessionClient = []" "browserMode sessionClient"
       "cookies sessionClient = [(''session'', ''old'')]"
    by (simp_all add: sessionClient_def exampleClient_def)
  with t show ?thesis
    by (simp add: DoRequest_def prepare_session_example call sync)
qed

subsection \<open>The content type of a request that is not a file upload\<close>

lemma headerSet_lookup:
  "headerSet h k v key = (if CanonicalMIMEHeaderKey k = key then Some v else h key)"
  by (simp add: headerSet_def)

lemma foldl_headerSet_lookup:
  "foldl (\<lambda>h (k, v). headerSet h k v) h0 kvs key =
     (if filter (\<lambda>kv. CanonicalMIMEHeaderKey (fst kv) = key) kvs = [] then h0 key
      else Some (snd (last (filter (\<lambda>kv. CanonicalMIMEHeaderKey (fst kv) = key) kvs))))"
proof (induction kvs rule: rev_induct)
  case Nil
  then show ?case by simp
next
  case (snoc x xs)
  obtain k v where x: "x = (k, v)" by (cases x)
  show ?case
  proof (cases "CanonicalMIMEHeaderKey k = key")
    case True
    then show ?thesis
      by (simp add: x headerSet_lookup)
  next
    case False
    with snoc show ?thesis
      by (simp add: x headerSet_lookup)
  qed
qed

lemma finishRequest_content_type:
  "Header (finishRequest env c req) ''Content-Type'' =
     (case explicitContentType c of Some v \<Rightarrow> Some v | None \<Rightarrow> Header req ''Content-Type'')"
  by (simp add: finishRequest_def Let_def headerSet_lookup canonical_literals
      foldl_headerSet_lookup explicitContentType_def)

lemma not_wordOrBracket_eq [simp]: "\<not> wordOrBracket (CHR ''='')"
  by (simp add: wordOrBracket_def stringDefs)

lemma isMatchFormPattern_iff:
  "isMatchFormPattern s \<longleftrightarrow>
     (\<exists>pre x rest. pre \<noteq> [] \<and> list_all wordOrBracket pre \<and> x \<noteq> CHR 0x0A \<and>
        s = pre @ CHR ''='' # x # rest)"
proof
  assume m: "isMatchFormPattern s"
  then obtain e x rest where d: "dropWhile wordOrBracket s = e # x # rest"
    and e: "e = CHR ''=''" and x: "x \<noteq> CHR 0x0A" and ne: "takeWhile wordOrBracket s \<noteq> []"
    by (auto simp: isMatchFormPattern_def split: list.splits)
  have "s = takeWhile wordOrBracket s @ dropWhile wordOrBracket s" by simp
  with d e have "s = takeWhile wordOrBracket s @ CHR ''='' # x # rest" by simp
  moreover have "list_all wordOrBracket (takeWhile wordOrBracket s)"
    by (simp add: list_all_iff) (meson set_takeWhileD)
  ultimately show "\<exists>pre x rest. pre \<noteq> [] \<and> list_all wordOrBracket pre \<and> x \<noteq> CHR 0x0A \<and>
        s = pre @ CHR ''='' # x # rest"
    using ne x by blast
next
  assume "\<exists>pre x rest. pre \<noteq> [] \<and> list_all wordOrBracket pre \<and> x \<noteq> CHR 0x0A \<and>
        s = pre @ CHR ''='' # x # rest"
  then obtain pre x rest where p: "pre \<noteq> []" "list_all wordOrBracket pre" "x \<noteq> CHR 0x0A"
    and s: "s = pre @ CHR ''='' # x # rest" by blast
  from p(2) have all: "\<And>c. c \<in> set pre \<Longrightarrow> wordOrBracket c" by (simp add: list_all_iff)
  have t: "takeWhile wordOrBracket s = pre"
    unfolding s using all by simp
  have d: "dropWhile wordOrBracket s = CHR ''='' # x # rest"
    unfolding s using all by simp
  from p t d show "isMatchFormPattern s" by (simp add: isMatchFormPattern_def)
qed


lemma explicitContentType_exact:
  assumes "distinct (map fst (header c))"
    and "\<forall>k \<in> set (map fst (header c)). CanonicalMIMEHeaderKey k = ''Content-Type'' \<longrightarrow> k = ''Content-Type''"
  shows "explicitContentType c = map_of (header c) ''Content-Type''"
proof -
  have "distinct (map fst kvs) \<Longrightarrow>
        (\<forall>k \<in> set (map fst kvs). CanonicalMIMEHeaderKey k = ''Content-Type'' \<longrightarrow> k = ''Content-Type'') \<Longrightarrow>
        (let xs = filter (\<lambda>kv. CanonicalMIMEHeaderKey (fst kv) = ''Content-Type'') kvs
         in if xs = [] then None else Some (snd (last xs))) = map_of kvs ''Content-Type''" for kvs :: "(string \<times> string) list"
  proof (induction kvs)
    case Nil
    then show ?case by simp
  next
    case (Cons kv kvs)
    obtain k v where kv: "kv = (k, v)" by (cases kv)
    show ?case
    proof (cases "k = ''Content-Type''")
      case True
      with Cons.prems kv have "\<forall>x \<in> set kvs. fst x \<noteq> ''Content-Type''" by force
      with Cons.prems have "filter (\<lambda>kv. CanonicalMIMEHeaderKey (fst kv) = ''Content-Type'') kvs = []"
        by (auto simp: filter_empty_conv)
      with True kv show ?thesis by (simp add: canonical_literals)
    next
      case False
      with Cons.prems kv have "CanonicalMIMEHeaderKey k \<noteq> ''Content-Type''" by auto
      with Cons False kv show ?thesis by simp
    qed
  qed
  with assms show ?thesis by (simp add: explicitContentType_def)
qed

lemma isMatchFormPattern_Nil [simp]: "\<not> isMatchFormPattern []"
  by (simp add: isMatchFormPattern_def)

text \<open>
  Claim C4, amended. For a call that is not a GET and whose parameter string does not
  contain \<^verbatim>\<open>@file:\<close>, \<^verbatim>\<open>prepareRequest\<close> returns a request (unless \<^verbatim>\<open>http.NewRequest\<close>
  refuses) whose body is the parameter string and whose \<^verbatim>\<open>Content-Type\<close> is: the value
  of the client's header of that name, if one is configured (the key is compared in its
  canonical form; the last such header wins); otherwise \<^verbatim>\<open>application/json\<close> if the
  string is not empty, begins with \<^verbatim>\<open>[\<close> or \<^verbatim>\<open>{\<close> and is valid JSON; otherwise
  \<^verbatim>\<open>application/x-www-form-urlencoded\<close> if the string matches \<^verbatim>\<open>^[\w\[\]]+=.+\<close>, that is
  (lemma \<open>isMatchFormPattern_iff\<close>) one or more word or bracket characters, \<^verbatim>\<open>=\<close>, and
  then a character that is not a line feed; otherwise none.
\<close>

theorem content_type_of_plain_request:
  assumes "stringsToUpper method \<noteq> ''GET''"
    and "encodeParam env c data = Inr param"
    and "\<not> stringsContains param ''@file:''"
    and "base = (if length (prefix c) > 0 then prefix c @ gstrTrim env url else url)"
  shows "case newRequestError env (stringsToUpper method) base of
           Some e \<Rightarrow> prepareRequest env c method url data = Failed e
         | None \<Rightarrow>
             (\<exists>req. prepareRequest env c method url data = Done req \<and>
                Body req = RawBody param \<and>
                Header req ''Content-Type'' =
                  (case explicitContentType c of
                     Some v \<Rightarrow> Some v
                   | None \<Rightarrow>
                       if param \<noteq> [] \<and> (hd param = CHR ''['' \<or> hd param = CHR ''{'') \<and>
                          jsonValid env param
                       then Some ''application/json''
                       else if isMatchFormPattern param
                       then Some ''application/x-www-form-urlencoded''
                       else None))"
proof (cases "newRequestError env (stringsToUpper method) base")
  case (Some e)
  with assms show ?thesis
    by (simp add: prepareRequest_def buildRequest_def NewRequest_def Let_def)
next
  case None
  let ?r0 = "\<lparr>Method = (if stringsToUpper method = [] then ''GET'' else stringsToUpper method),
      URL = base, Body = RawBody param, Header = Map.empty, Host = urlHost env base, Ctx = Background\<rparr>"
  from None assms have p: "prepareRequest env c method url data =
      Done (finishRequest env c (setContentType env c param ?r0))"
    by (simp add: prepareRequest_def buildRequest_def NewRequest_def Let_def)
  have body: "Body (setContentType env c param ?r0) = RawBody param"
    by (simp add: setContentType_def split: option.splits)
  have exact: "explicitContentType c \<noteq> None" if "map_of (header c) ''Content-Type'' = Some v" for v
  proof -
    from that have "(''Content-Type'', v) \<in> set (header c)" by (rule map_of_SomeD)
    then have "(''Content-Type'', v) \<in>
        set (filter (\<lambda>kv. CanonicalMIMEHeaderKey (fst kv) = ''Content-Type'') (header c))"
      by (simp add: canonical_literals)
    then have "filter (\<lambda>kv. CanonicalMIMEHeaderKey (fst kv) = ''Content-Type'') (header c) \<noteq> []"
      by force
    then show ?thesis by (simp add: explicitContentType_def Let_def)
  qed
  have hdr: "explicitContentType c = None \<Longrightarrow>
       Header (setContentType env c param ?r0) ''Content-Type'' = sniffContentType env param"
    using exact
    by (cases "map_of (header c) ''Content-Type''")
       (auto simp: setContentType_def headerSet_lookup canonical_literals split: option.splits)
  show ?thesis
    using None p body hdr
    by (auto simp: finishRequest_content_type sniffContentType_def split: option.splits)
qed

text \<open>
  As claim C4 words the form shape (a remainder that is not empty after \<^verbatim>\<open>=\<close>), the body
  \<^verbatim>\<open>a=\<close> followed by a line feed has it, and no content type is configured; yet the request
  carries no \<^verbatim>\<open>Content-Type\<close>.
\<close>

theorem form_shape_with_line_feed_gets_no_content_type:
  "specFormShape (''a='' @ [CHR 0x0A])
   \<and> explicitContentType exampleClient = None
   \<and> prepareRequest exampleEnv exampleClient ''POST'' ''http://example.com/''
        [GString (''a='' @ [CHR 0x0A])] =
       Done \<lparr>Method = ''POST'', URL = ''http://example.com/'', Body = RawBody (''a='' @ [CHR 0x0A]),
             Header = Map.empty, Host = [], Ctx = Background\<rparr>"
  by (simp add: specFormShape_def explicitContentType_def prepareDefs upper_literals
      canonical_literals stringDefs exampleClient_def exampleEnv_def exampleJson_def)

theorem content_type_of_plain_request_witness:
  "(\<exists>req. prepareRequest exampleEnv exampleClient ''POST'' ''http://example.com/'' [GString exampleJson]
            = Done req \<and> Header req ''Content-Type'' = Some ''application/json'')
   \<and> (\<exists>req. prepareRequest exampleEnv exampleClient ''POST'' ''http://example.com/'' [GString ''a=1'']
            = Done req \<and> Header req ''Content-Type'' = Some ''application/x-www-form-urlencoded'')
   \<and> (\<exists>req. prepareRequest exampleEnv exampleClient ''POST'' ''http://example.com/'' [GString ''hello world'']
            = Done req \<and> Header req ''Content-Type'' = None)
   \<and> (\<exists>req. prepareRequest exampleEnv (exampleClient\<lparr>header := [(''content-type'', ''text/plain'')]\<rparr>)
              ''POST'' ''http://example.com/'' [GString ''a=1'']
            = Done req \<and> Header req ''Content-Type'' = Some ''text/plain'')"
proof -
  have not_get: "stringsToUpper ''POST'' \<noteq> ''GET''" by (simp add: upper_literals)
  have enc: "encodeParam exampleEnv exampleClient [GString s] = Inr s" for s
    by (simp add: encodeParam_def exampleEnv_def exampleClient_def)
  have enc': "encodeParam exampleEnv (exampleClient\<lparr>header := [(''content-type'', ''text/plain'')]\<rparr>)
      [GString s] = Inr s" for s
    by (simp add: encodeParam_def exampleEnv_def exampleClient_def)
  have nf: "\<not> stringsContains exampleJson ''@file:''" "\<not> stringsContains ''a=1'' ''@file:''"
    "\<not> stringsContains ''hello world'' ''@file:''"
    by (simp_all add: exampleJson_def)
  have base: "''http://example.com/'' = (if length (prefix exampleClient) > 0
      then prefix exampleClient @ gstrTrim exampleEnv ''http://example.com/'' else ''http://example.com/'')"
    "''http://example.com/'' = (if length (prefix (exampleClient\<lparr>header := [(''content-type'', ''text/plain'')]\<rparr>)) > 0
      then prefix (exampleClient\<lparr>header := [(''content-type'', ''text/plain'')]\<rparr>) @ gstrTrim exampleEnv ''http://example.com/'' else ''http://example.com/'')"
    by (simp_all add: exampleClient_def)
  have ok: "newRequestError exampleEnv (stringsToUpper ''POST'') ''http://example.com/'' = None"
    by (simp add: exampleEnv_def)
  have ex: "explicitContentType exampleClient = None"
    "explicitContentType (exampleClient\<lparr>header := [(''content-type'', ''text/plain'')]\<rparr>) = Some ''text/plain''"
    by (simp_all add: explicitContentType_def exampleClient_def CanonicalMIMEHeaderKey_def
        validHeaderFieldByte_def stringDefs Let_def)
  have sn: "jsonValid exampleEnv exampleJson" "hd exampleJson = CHR ''{''" "exampleJson \<noteq> []"
    "isMatchFormPattern ''a=1''" "\<not> isMatchFormPattern ''hello world''"
    "\<not> jsonValid exampleEnv ''a=1''" "\<not> jsonValid exampleEnv ''hello world''"
    by (simp_all add: exampleEnv_def exampleJson_def isMatchFormPattern_def wordOrBracket_def stringDefs)
  from content_type_of_plain_request[OF not_get enc nf(1) base(1)]
       content_type_of_plain_request[OF not_get enc nf(2) base(1)]
       content_type_of_plain_request[OF not_get enc nf(3) base(1)]
       content_type_of_plain_request[OF not_get enc' nf(2) base(2)]
  show ?thesis
    by (simp add: ok ex sn) blast
qed

subsection \<open>A file upload whose path does not exist\<close>

lemma take_eq_iff_prefix: "take (length sub) s = sub \<longleftrightarrow> (\<exists>b. s = sub @ b)"
  by (metis append_eq_conv_conj append_take_drop_id)

lemma stringsContains_iff: "stringsContains s sub \<longleftrightarrow> (\<exists>a b. s = a @ sub @ b)"
proof (induction s)
  case Nil
  then show ?case by simp
next
  case (Cons x xs)
  have "(\<exists>a b. x # xs = a @ sub @ b) \<longleftrightarrow> (\<exists>b. x # xs = sub @ b) \<or> (\<exists>a b. xs = a @ sub @ b)"
  proof
    assume "\<exists>a b. x # xs = a @ sub @ b"
    then obtain a b where ab: "x # xs = a @ sub @ b" by blast
    show "(\<exists>b. x # xs = sub @ b) \<or> (\<exists>a b. xs = a @ sub @ b)"
    proof (cases a)
      case Nil
      with ab show ?thesis by auto
    next
      case (Cons y ys)
      with ab have "xs = ys @ sub @ b" by simp
      then show ?thesis by blast
    qed
  next
    assume "(\<exists>b. x # xs = sub @ b) \<or> (\<exists>a b. xs = a @ sub @ b)"
    then show "\<exists>a b. x # xs = a @ sub @ b"
    proof
      assume "\<exists>b. x # xs = sub @ b"
      then obtain b where "x # xs = [] @ sub @ b" by auto
      then show ?thesis by blast
    next
      assume "\<exists>a b. xs = a @ sub @ b"
      then obtain a b where "x # xs = (x # a) @ sub @ b" by auto
      then show ?thesis by blast
    qed
  qed
  with Cons show ?case
    using take_eq_iff_prefix[of sub "x # xs"] by simp
qed

lemma stringsSplit_hd_prefix: "stringsSplit sep s = y # ys \<Longrightarrow> \<exists>b. s = y @ b"
proof (induction s arbitrary: y ys)
  case Nil
  then show ?case by simp
next
  case (Cons x xs)
  show ?case
  proof (cases "x = sep")
    case True
    with Cons.prems show ?thesis by simp
  next
    case False
    obtain z zs where z: "stringsSplit sep xs = z # zs"
      by (cases "stringsSplit sep xs") simp_all
    with Cons.prems False have y: "y = x # z" by simp
    from Cons.IH[OF z] obtain b where "xs = z @ b" by blast
    with y show ?thesis by simp
  qed
qed

lemma stringsSplit_mem_sublist:
  "item \<in> set (stringsSplit sep s) \<Longrightarrow> \<exists>a b. s = a @ item @ b"
proof (induction s arbitrary: item)
  case Nil
  then show ?case by simp
next
  case (Cons x xs)
  show ?case
  proof (cases "x = sep")
    case True
    with Cons.prems have "item = [] \<or> item \<in> set (stringsSplit sep xs)" by simp
    then show ?thesis
    proof
      assume "item = []"
      then have "x # xs = [] @ item @ (x # xs)" by simp
      then show ?thesis by blast
    next
      assume "item \<in> set (stringsSplit sep xs)"
      from Cons.IH[OF this] obtain a b where "xs = a @ item @ b" by blast
      then have "x # xs = (x # a) @ item @ b" by simp
      then show ?thesis by blast
    qed
  next
    case False
    obtain z zs where z: "stringsSplit sep xs = z # zs"
      by (cases "stringsSplit sep xs") simp_all
    with Cons.prems False have "item = x # z \<or> item \<in> set zs" by simp
    then show ?thesis
    proof
      assume i: "item = x # z"
      from stringsSplit_hd_prefix[OF z] obtain b where "xs = z @ b" by blast
      with i have "x # xs = [] @ item @ b" by simp
      then show ?thesis by blast
    next
      assume "item \<in> set zs"
      with z have "item \<in> set (stringsSplit sep xs)" by simp
      from Cons.IH[OF this] obtain a b where "xs = a @ item @ b" by blast
      then have "x # xs = (x # a) @ item @ b" by simp
      then show ?thesis by blast
    qed
  qed
qed

lemma writeItems_append:
  "writeItems env acc (pre @ rest) =
     (case writeItems env acc pre of
        Panicked p \<Rightarrow> Panicked p
      | Failed e \<Rightarrow> Failed e
      | Done ps \<Rightarrow> writeItems env ps rest)"
  by (induction pre arbitrary: acc) (auto split: outcome.splits)

lemma writeItems_not_Done:
  "item \<in> set items \<Longrightarrow> \<forall>pt. writeItem env item \<noteq> Done pt \<Longrightarrow>
     writeItems env acc items \<noteq> Done ps"
  by (induction items arbitrary: acc) (auto split: outcome.splits)

lemma writeItem_missing_file:
  assumes "stringsSplit (CHR ''='') item = k # (''@file:'' @ path) # others"
    and "path \<noteq> []"
    and "\<not> fileExists env path"
  shows "writeItem env item = Failed (doesNotExist path)"
  using assms by (simp add: writeItem_def Let_def)

lemma file_marker_in_param:
  assumes "item \<in> set (stringsSplit (CHR ''&'') param)"
    and "stringsSplit (CHR ''='') item = k # (''@file:'' @ path) # others"
  shows "stringsContains param ''@file:''"
proof -
  from assms(2) have "(''@file:'' @ path) \<in> set (stringsSplit (CHR ''='') item)" by simp
  from stringsSplit_mem_sublist[OF this] obtain a b where i: "item = a @ (''@file:'' @ path) @ b"
    by blast
  from stringsSplit_mem_sublist[OF assms(1)] obtain a' b' where "param = a' @ item @ b'"
    by blast
  with i have "param = (a' @ a) @ ''@file:'' @ (path @ b @ b')" by simp
  then show ?thesis unfolding stringsContains_iff by blast
qed

text \<open>
  Claim C2, amended. Take a call that is not a GET, whose parameter string has an
  \<^verbatim>\<open>&\<close>-item with the field value \<^verbatim>\<open>@file:\<close> followed by a path (not empty) that does not
  exist. \<^verbatim>\<open>DoRequest\<close> then sends nothing and leaves the client as it is, and it yields no
  response: whatever it returns is an error with a nil response. When every item before
  that one contains \<^verbatim>\<open>=\<close>, it does return: an error and no response. When the items before
  that one are all written without failure, the error it returns is
  \<^verbatim>\<open>"path" does not exist\<close>.
\<close>

theorem missing_upload_file_sends_nothing:
  assumes "stringsToUpper method \<noteq> ''GET''"
    and "encodeParam env c data = Inr param"
    and "stringsSplit (CHR ''&'') param = pre @ item # post"
    and "stringsSplit (CHR ''='') item = k # (''@file:'' @ path) # others"
    and "path \<noteq> []"
    and "\<not> fileExists env path"
  shows "(\<exists>r. DoRequest env c tr method url data = (r, c, tr) \<and>
              (\<forall>resp err. r = Returns resp err \<longrightarrow> resp = None \<and> err \<noteq> None))
       \<and> ((\<forall>earlier \<in> set pre. CHR ''='' \<in> set earlier) \<longrightarrow>
              (\<exists>e. DoRequest env c tr method url data = (Returns None (Some e), c, tr)))
       \<and> (\<forall>ps. writeItems env [] pre = Done ps \<longrightarrow>
              DoRequest env c tr method url data = (Returns None (Some (doesNotExist path)), c, tr))"
proof -
  from assms(3) have mem: "item \<in> set (stringsSplit (CHR ''&'') param)" by simp
  from file_marker_in_param[OF mem assms(4)] have marker: "stringsContains param ''@file:''" .
  have item: "writeItem env item = Failed (doesNotExist path)"
    by (rule writeItem_missing_file[OF assms(4,5,6)])
  then have "\<forall>pt. writeItem env item \<noteq> Done pt" by simp
  from writeItems_not_Done[OF mem this]
  have nd: "\<And>ps. writeItems env [] (stringsSplit (CHR ''&'') param) \<noteq> Done ps" .
  let ?base = "if length (prefix c) > 0 then prefix c @ gstrTrim env url else url"
  have build: "buildRequest env c (stringsToUpper method) ?base param =
      (case writeItems env [] (stringsSplit (CHR ''&'') param) of
         Panicked p \<Rightarrow> Panicked p | Failed e \<Rightarrow> Failed e | Done ps \<Rightarrow> Failed (doesNotExist path))"
  proof (cases "writeItems env [] (stringsSplit (CHR ''&'') param)")
    case (Done ps)
    with nd[of ps] show ?thesis by simp
  qed (simp_all add: buildRequest_def assms(1) marker)
  have first: "\<exists>r. DoRequest env c tr method url data = (r, c, tr) \<and>
              (\<forall>resp err. r = Returns resp err \<longrightarrow> resp = None \<and> err \<noteq> None)"
    using assms(2) build
    by (cases "writeItems env [] (stringsSplit (CHR ''&'') param)")
       (simp_all add: DoRequest_def prepareRequest_def Let_def)
  have second: "DoRequest env c tr method url data = (Returns None (Some (doesNotExist path)), c, tr)"
    if "writeItems env [] pre = Done ps" for ps
  proof -
    from that item have "writeItems env [] (stringsSplit (CHR ''&'') param) = Failed (doesNotExist path)"
      by (simp add: assms(3) writeItems_append)
    with assms(2) build show ?thesis
      by (simp add: DoRequest_def prepareRequest_def Let_def)
  qed
  have returns: "\<exists>e. DoRequest env c tr method url data = (Returns None (Some e), c, tr)"
    if eq: "\<forall>earlier \<in> set pre. CHR ''='' \<in> set earlier"
  proof (cases "writeItems env [] pre")
    case (Panicked p)
    with writeItems_no_panic[OF eq, of env "[]" p] show ?thesis by simp
  next
    case (Failed e)
    then have "writeItems env [] (stringsSplit (CHR ''&'') param) = Failed e"
      by (simp add: assms(3) writeItems_append)
    with assms(2) build show ?thesis
      by (simp add: DoRequest_def prepareRequest_def Let_def)
  next
    case (Done ps)
    from second[OF this] show ?thesis by blast
  qed
  from first returns second show ?thesis by blast
qed

theorem missing_upload_file_sends_nothing_witness:
  "(\<exists>e. DoRequest exampleEnv exampleClient [] ''POST'' ''http://example.com/''
      [GString ''name=x&f=@file:/missing''] = (Returns None (Some e), exampleClient, []))
   \<and> DoRequest exampleEnv exampleClient [] ''POST'' ''http://example.com/''
      [GString ''name=x&f=@file:/missing''] =
     (Returns None (Some (doesNotExist ''/missing'')), exampleClient, [])"
proof -
  have eq: "\<forall>earlier \<in> set [''name=x'']. CHR ''='' \<in> set earlier" by simp
  have not_get: "stringsToUpper ''POST'' \<noteq> ''GET''" by (simp add: upper_literals)
  have enc: "encodeParam exampleEnv exampleClient [GString ''name=x&f=@file:/missing'']
      = Inr ''name=x&f=@file:/missing''"
    by (simp add: encodeParam_def exampleEnv_def exampleClient_def)
  have items: "stringsSplit (CHR ''&'') ''name=x&f=@file:/missing'' =
      [''name=x''] @ ''f=@file:/missing'' # []" by simp
  have item: "stringsSplit (CHR ''='') ''f=@file:/missing'' = ''f'' # (''@file:'' @ ''/missing'') # []"
    by simp
  have path: "''/missing'' \<noteq> []" "\<not> fileExists exampleEnv ''/missing''"
    by (simp_all add: exampleEnv_def)
  have pre: "writeItems exampleEnv [] [''name=x''] = Done [FormField ''name'' ''x'']"
    by (simp add: writeItem_def exampleEnv_def Let_def)
  from missing_upload_file_sends_nothing[OF not_get enc items item path, of "[]" "''http://example.com/''"]
    pre eq
  show ?thesis by blast
qed

text \<open>
  The error of claim C2 is the one of the first item that fails: here the body names the
  missing path \<^verbatim>\<open>/missing\<close> in its second item, and the call returns the error of opening
  the file of the first item, which names another path.
\<close>

theorem unreadable_file_before_missing_file:
  "\<not> fileExists lockedEnv ''/missing''
   \<and> stringsSplit (CHR ''&'') ''f=@file:/tmp/a.txt&g=@file:/missing'' =
       [''f=@file:/tmp/a.txt'', ''g=@file:/missing'']
   \<and> stringsSplit (CHR ''='') ''g=@file:/missing'' = [''g'', ''@file:/missing'']
   \<and> DoRequest lockedEnv exampleClient [] ''POST'' ''http://example.com/''
        [GString ''f=@file:/tmp/a.txt&g=@file:/missing''] =
       (Returns None (Some (External ''open /tmp/a.txt: permission denied'')), exampleClient, [])"
  by (simp add: DoRequest_def prepareRequest_def encodeParam_def buildRequest_def writeItem_def
      upper_literals lockedEnv_def exampleEnv_def exampleClient_def Let_def)

subsection \<open>Which encoding a request body has\<close>

lemma setContentType_frame [simp]:
  "Body (setContentType env c param req) = Body req"
  by (simp add: setContentType_def split: option.splits)

lemma buildRequest_body:
  assumes "buildRequest env c m u param = Done req"
  shows "if m = ''GET'' then Body req = RawBody []
         else if stringsContains param ''@file:''
         then (\<exists>parts. writeItems env [] (stringsSplit (CHR ''&'') param) = Done parts \<and>
                 Body req = MultipartBody parts)
         else Body req = RawBody param"
  using assms
  by (auto simp: buildRequest_def NewRequest_def split: if_splits option.splits outcome.splits)

text \<open>
  What \<^verbatim>\<open>prepareRequest\<close> does: the parameter string comes from the encoder that the value
  under the key \<^verbatim>\<open>Content-Type\<close> and the type of the data select, and the body of the
  request is empty for GET, the multipart encoding of the \<^verbatim>\<open>&\<close>-items of the string when the
  method is not GET and the string contains \<^verbatim>\<open>@file:\<close>, and the string itself otherwise.
\<close>

lemma prepareRequest_body:
  assumes "prepareRequest env c method url data = Done req"
  shows "\<exists>param. encodeParam env c data = Inr param
       \<and> (case data of
            [] \<Rightarrow> param = []
          | d # _ \<Rightarrow>
              if map_of (header c) ''Content-Type'' = Some ''application/json'' then
                (case d of
                   GString s \<Rightarrow> param = s
                 | GBytes s \<Rightarrow> param = s
                 | GOther v \<Rightarrow> jsonMarshal env v = Inr param)
              else if map_of (header c) ''Content-Type'' = Some ''application/xml'' then
                (case d of
                   GString s \<Rightarrow> param = s
                 | GBytes s \<Rightarrow> param = s
                 | GOther v \<Rightarrow> VarToXml env v = Inr param)
              else param = BuildParams env d)
       \<and> (if stringsToUpper method = ''GET'' then Body req = RawBody []
          else if stringsContains param ''@file:''
          then (\<exists>parts. writeItems env [] (stringsSplit (CHR ''&'') param) = Done parts \<and>
                  Body req = MultipartBody parts)
          else Body req = RawBody param)"
proof -
  let ?base = "if length (prefix c) > 0 then prefix c @ gstrTrim env url else url"
  from assms obtain param r0 where enc: "encodeParam env c data = Inr param"
    and b: "buildRequest env c (stringsToUpper method) ?base param = Done r0"
    and r: "req = finishRequest env c r0"
    by (auto simp: prepareRequest_def Let_def split: sum.splits outcome.splits)
  from enc have shape: "case data of
            [] \<Rightarrow> param = []
          | d # _ \<Rightarrow>
              if map_of (header c) ''Content-Type'' = Some ''application/json'' then
                (case d of
                   GString s \<Rightarrow> param = s
                 | GBytes s \<Rightarrow> param = s
                 | GOther v \<Rightarrow> jsonMarshal env v = Inr param)
              else if map_of (header c) ''Content-Type'' = Some ''application/xml'' then
                (case d of
                   GString s \<Rightarrow> param = s
                 | GBytes s \<Rightarrow> param = s
                 | GOther v \<Rightarrow> VarToXml env v = Inr param)
              else param = BuildParams env d"
    by (auto simp: encodeParam_def Let_def split: list.splits option.splits gvalue.splits if_splits)
  from buildRequest_body[OF b] r enc shape show ?thesis
    by simp
qed

text \<open>
  Claim C3: every call uses exactly one encoding mode for the request body, form-encoded,
  multipart or JSON/XML passthrough, and a body that the JSON or XML path produced is never
  read again as form fields for a multipart encoding. The code breaks it. Under a
  configured JSON content type the string \<^verbatim>\<open>a=@file:/tmp/a.txt\<close> is passed through as the
  parameter string (the JSON path) and then split into form fields: the request body is a
  multipart upload of the file \<^verbatim>\<open>/tmp/a.txt\<close>, and the custom-header loop puts
  \<^verbatim>\<open>Content-Type: application/json\<close>, without a boundary, over the multipart content type
  that line 240 has set.
\<close>

theorem json_string_is_split_into_form_fields:
  "encodeParam exampleEnv jsonClient [GString ''a=@file:/tmp/a.txt''] = Inr ''a=@file:/tmp/a.txt''
   \<and> prepareRequest exampleEnv jsonClient ''POST'' ''http://example.com/''
        [GString ''a=@file:/tmp/a.txt''] =
       Done \<lparr>Method = ''POST'', URL = ''http://example.com/'',
             Body = MultipartBody [FormFile ''a'' ''a.txt'' ''hello''],
             Header = [''Content-Type'' \<mapsto> ''application/json''], Host = [], Ctx = Background\<rparr>"
  by (simp add: prepareDefs writeItem_def upper_literals canonical_literals jsonClient_def
      exampleClient_def exampleEnv_def)

text \<open>
  The same string sent by a client without a configured content type: the multipart body
  goes out under the writer's content type, boundary included.
\<close>

lemma form_string_is_a_file_upload:
  "prepareRequest exampleEnv exampleClient ''POST'' ''http://example.com/''
        [GString ''a=@file:/tmp/a.txt''] =
       Done \<lparr>Method = ''POST'', URL = ''http://example.com/'',
             Body = MultipartBody [FormFile ''a'' ''a.txt'' ''hello''],
             Header = [''Content-Type'' \<mapsto> ''multipart/form-data; boundary=b''], Host = [],
             Ctx = Background\<rparr>"
  by (simp add: prepareDefs writeItem_def upper_literals canonical_literals
      exampleClient_def exampleEnv_def)

text \<open>
  The encoder under the key \<^verbatim>\<open>Content-Type\<close> bound to the JSON or the XML content type: a
  string or a byte slice is the parameter string as it is, any other value goes through
  the matching marshaler; a marshal error is what \<^verbatim>\<open>DoRequest\<close> returns, with nothing
  sent; and for a call that is not a GET and whose string does not contain \<^verbatim>\<open>@file:\<close> the
  string is the request body.
\<close>

lemma encodeParam_json_xml:
  assumes "map_of (header c) ''Content-Type'' = Some ct"
    and "ct = ''application/json'' \<or> ct = ''application/xml''"
    and "base = (if length (prefix c) > 0 then prefix c @ gstrTrim env url else url)"
  shows "encodeParam env c (d # rest) =
           (case d of
              GString s \<Rightarrow> Inr s
            | GBytes s \<Rightarrow> Inr s
            | GOther v \<Rightarrow> if ct = ''application/json'' then jsonMarshal env v else VarToXml env v)
       \<and> (\<forall>e. encodeParam env c (d # rest) = Inl e \<longrightarrow>
             prepareRequest env c method url (d # rest) = Failed e \<and>
             DoRequest env c tr method url (d # rest) = (Returns None (Some e), c, tr))
       \<and> (\<forall>param. encodeParam env c (d # rest) = Inr param \<and>
             stringsToUpper method \<noteq> ''GET'' \<and> \<not> stringsContains param ''@file:'' \<longrightarrow>
             (case newRequestError env (stringsToUpper method) base of
                Some e \<Rightarrow> prepareRequest env c method url (d # rest) = Failed e
              | None \<Rightarrow> (\<exists>req. prepareRequest env c method url (d # rest) = Done req \<and>
                           Body req = RawBody param)))"
proof -
  have enc: "encodeParam env c (d # rest) =
           (case d of
              GString s \<Rightarrow> Inr s
            | GBytes s \<Rightarrow> Inr s
            | GOther v \<Rightarrow> if ct = ''application/json'' then jsonMarshal env v else VarToXml env v)"
    using assms(1,2) by (auto simp: encodeParam_def split: gvalue.splits)
  have fail: "prepareRequest env c method url (d # rest) = Failed e \<and>
             DoRequest env c tr method url (d # rest) = (Returns None (Some e), c, tr)"
    if "encodeParam env c (d # rest) = Inl e" for e
    using that by (simp add: DoRequest_def prepareRequest_def Let_def)
  have plain: "case newRequestError env (stringsToUpper method) base of
                Some e \<Rightarrow> prepareRequest env c method url (d # rest) = Failed e
              | None \<Rightarrow> (\<exists>req. prepareRequest env c method url (d # rest) = Done req \<and>
                           Body req = RawBody param)"
    if "encodeParam env c (d # rest) = Inr param" "stringsToUpper method \<noteq> ''GET''"
       "\<not> stringsContains param ''@file:''" for param
    using that assms(3)
    by (auto simp: prepareRequest_def buildRequest_def NewRequest_def Let_def split: option.splits)
  from enc fail plain show ?thesis by blast
qed

text \<open>
  Claim C5: with the content type configured as JSON or XML, a string or a byte sequence
  becomes the body unmodified, byte for byte. The code breaks it, by the defect of claim
  C3. Under a configured XML content type the bytes \<^verbatim>\<open>f=@file:/tmp/a.txt\<close> of a PUT are
  passed through as the parameter string and then split into form fields: the request body
  is a multipart upload of the content of \<^verbatim>\<open>/tmp/a.txt\<close>, not these bytes, under the header
  \<^verbatim>\<open>Content-Type: application/xml\<close>.
\<close>

theorem xml_bytes_are_sent_as_file_upload:
  "encodeParam exampleEnv xmlClient [GBytes ''f=@file:/tmp/a.txt''] = Inr ''f=@file:/tmp/a.txt''
   \<and> prepareRequest exampleEnv xmlClient ''PUT'' ''http://example.com/''
        [GBytes ''f=@file:/tmp/a.txt''] =
       Done \<lparr>Method = ''PUT'', URL = ''http://example.com/'',
             Body = MultipartBody [FormFile ''f'' ''a.txt'' ''hello''],
             Header = [''Content-Type'' \<mapsto> ''application/xml''], Host = [], Ctx = Background\<rparr>"
  by (simp add: prepareDefs writeItem_def upper_literals canonical_literals xmlClient_def
      exampleClient_def exampleEnv_def)

end
